theory Spec2Isabelle
  imports Main "HOL-Library.Word" "HOL-Library.AList" "HOL-Library.Sublist"
begin

unbundle bit_operations_syntax

section \<open>Common types (serverless\_types.h)\<close>

text \<open>
  The client resource layer of the serverless storage engine: the page client
  (pageserver\_client.cc), the log client with its asynchronous append queue
  (safekeeper\_client.cc), the connection pool (connection\_pool.cc) and the page cache of
  the table handler (ha\_serverless.cc).

  \<^verbatim>\<open>uint64_t\<close> and \<^verbatim>\<open>uint32_t\<close> are 64- and 32-bit words; a \<^verbatim>\<open>char\<close> buffer is a list of
  HOL characters (bytes). Fields whose names occur in several structs carry a prefix of
  their struct; \<^verbatim>\<open>TimelineId::id\<close> is \<open>tl_id\<close>.

  Each function takes the state it reads and returns the state it leaves. What the
  operating system, libcurl and the two services answer is an explicit argument. Memory
  allocation (\<^verbatim>\<open>new\<close>, \<^verbatim>\<open>malloc\<close>, \<^verbatim>\<open>realloc\<close>) is taken to succeed unless a function models
  its failure by an argument. A function that runs under one lock is one atomic step;
  threads appear as the order of such steps.
\<close>

type_synonym u64 = "64 word"
type_synonym u32 = "32 word"
type_synonym bytes = "char list"

record PageId =
  timeline_id :: u64
  page_number :: u32

record TimelineId =
  tl_id :: u64

record WalRecord =
  lsn :: u64
  wal_length :: u32
  wal_data :: bytes

definition NUL :: char where
  "NUL = CHR 0x00"

text \<open>\<^verbatim>\<open>memcpy(dest, src, n)\<close> and \<^verbatim>\<open>memset(dest + off, c, n)\<close> on buffers that are long enough.\<close>

definition memcpy :: "bytes \<Rightarrow> bytes \<Rightarrow> nat \<Rightarrow> bytes" where
  "memcpy dest src n = take n src @ drop n dest"

definition memset_at :: "bytes \<Rightarrow> nat \<Rightarrow> char \<Rightarrow> nat \<Rightarrow> bytes" where
  "memset_at dest off c n = take off dest @ replicate n c @ drop (off + n) dest"

text \<open>The C string stored in a buffer: the bytes before the first NUL.\<close>

definition c_str :: "bytes \<Rightarrow> bytes" where
  "c_str s = takeWhile (\<lambda>c. c \<noteq> NUL) s"

text \<open>Decimal output of \<^verbatim>\<open>%llu\<close> and \<^verbatim>\<open>%u\<close>.\<close>

fun show_nat :: "nat \<Rightarrow> string" where
  "show_nat n =
     (if n < 10 then [''0123456789'' ! n]
      else show_nat (n div 10) @ [''0123456789'' ! (n mod 10)])"

declare show_nat.simps [simp del]

section \<open>Page client (pageserver\_client.cc)\<close>

text \<open>
  \<^verbatim>\<open>HttpResponse\<close>: \<open>resp_data = None\<close> is the null pointer the constructor sets; otherwise
  it holds the \<open>resp_size\<close> bytes received so far (the terminating NUL that
  \<^verbatim>\<open>write_callback\<close> stores behind them is not counted by \<^verbatim>\<open>size\<close> and is left implicit).
\<close>

record HttpResponse =
  resp_data :: "bytes option"
  resp_size :: nat

definition HttpResponse_init :: HttpResponse where
  "HttpResponse_init = \<lparr>resp_data = None, resp_size = 0\<rparr>"

definition write_callback :: "bytes \<Rightarrow> HttpResponse \<Rightarrow> nat \<times> HttpResponse" where
  "write_callback contents response =
     (let total_size = length contents;
          old = (case resp_data response of None \<Rightarrow> [] | Some d \<Rightarrow> take (resp_size response) d)
      in (total_size,
          response\<lparr>resp_data := Some (old @ contents),
                   resp_size := resp_size response + total_size\<rparr>))"

text \<open>
  The client object: \<open>curl_handle\<close> tells whether \<^verbatim>\<open>curl_easy_init\<close> returned a handle.
  What libcurl and the page service do for one request is the environment: whether
  \<^verbatim>\<open>curl_easy_perform\<close> returned \<^verbatim>\<open>CURLE_OK\<close>, the HTTP status, and the chunks of the body
  handed to \<^verbatim>\<open>write_callback\<close> in order.
\<close>

record PageserverClient =
  curl_handle :: bool
  base_url :: string

record http_reply =
  perform_ok :: bool
  response_code :: int
  body_chunks :: "bytes list"

type_synonym page_service = "string \<Rightarrow> http_reply"

definition make_http_request ::
  "PageserverClient \<Rightarrow> page_service \<Rightarrow> string \<Rightarrow> HttpResponse \<Rightarrow> int \<times> HttpResponse" where
  "make_http_request client service url response =
     (if \<not> curl_handle client then (- 1, response)
      else
        let reply = service url;
            response' = fold (\<lambda>chunk r. snd (write_callback chunk r)) (body_chunks reply) response
        in if \<not> perform_ok reply then (- 1, response')
           else (if response_code reply = 200 then 0 else - 1, response'))"

definition build_page_url :: "PageserverClient \<Rightarrow> PageId \<Rightarrow> string" where
  "build_page_url client page_id =
     take 255 (base_url client @ ''/page/'' @ show_nat (unat (timeline_id page_id)) @ ''/''
               @ show_nat (unat (page_number page_id)))"

definition read_page ::
  "PageserverClient \<Rightarrow> page_service \<Rightarrow> PageId \<Rightarrow> bytes \<Rightarrow> nat \<Rightarrow> int \<times> bytes" where
  "read_page client service page_id buffer buffer_size =
     (let url = build_page_url client page_id;
          (result, response) = make_http_request client service url HttpResponse_init
      in case resp_data response of
           None \<Rightarrow> (- 1, buffer)
         | Some d \<Rightarrow>
             if result = 0 \<and> resp_size response \<le> buffer_size then
               let buffer1 = memcpy buffer d (resp_size response);
                   buffer2 = (if resp_size response < buffer_size
                              then memset_at buffer1 (resp_size response) NUL
                                     (buffer_size - resp_size response)
                              else buffer1)
               in (result, buffer2)
             else (- 1, buffer))"

section \<open>Log client (safekeeper\_client.cc)\<close>

record WalAppendRequest =
  req_timeline_id :: TimelineId
  req_record :: WalRecord
  completed :: bool
  result :: int

text \<open>
  The log of a client is instrumentation, not program state: it records, in order, each
  attempt to open a connection (a \<^verbatim>\<open>socket()\<close> call of \<^verbatim>\<open>establish_connection\<close>), each call of
  \<^verbatim>\<open>append_wal_record\<close> with its arguments, each \<^verbatim>\<open>send\<close> with the bytes handed to it and each
  \<^verbatim>\<open>recv\<close>.
\<close>

datatype net_event =
  Ev_connect_attempt
  | Ev_append TimelineId WalRecord
  | Ev_send bytes
  | Ev_recv

record SafekeeperClient =
  socket_fd :: int
  connected :: bool
  append_queue :: "WalAppendRequest list"
  shutdown_requested :: bool
  net_log :: "net_event list"

text \<open>
  What the operating system and the log service answer during one operation:
  the results of \<^verbatim>\<open>socket\<close>, \<^verbatim>\<open>inet_pton\<close> and \<^verbatim>\<open>connect\<close>; how many bytes \<^verbatim>\<open>send\<close>
  takes (\<open>None\<close>: it returns -1); and what \<^verbatim>\<open>recv\<close> delivers (\<open>None\<close>: it returns -1;
  the empty list: the peer closed the stream and it returns 0).
\<close>

record net_env =
  socket_ret :: int
  inet_pton_ret :: int
  connect_ret :: int
  send_accepts :: "nat option"
  recv_reply :: "bytes option"

definition SafekeeperClient_init :: SafekeeperClient where
  "SafekeeperClient_init =
     \<lparr>socket_fd = - 1, connected = False, append_queue = [], shutdown_requested = False,
      net_log = []\<rparr>"

definition establish_connection :: "net_env \<Rightarrow> SafekeeperClient \<Rightarrow> int \<times> SafekeeperClient" where
  "establish_connection env c =
     (if connected c then (0, c)
      else
        let c1 = c\<lparr>socket_fd := socket_ret env, net_log := net_log c @ [Ev_connect_attempt]\<rparr>
        in if socket_fd c1 < 0 then (- 1, c1)
           else if inet_pton_ret env \<le> 0 then (- 1, c1\<lparr>socket_fd := - 1\<rparr>)
           else if connect_ret env < 0 then (- 1, c1\<lparr>socket_fd := - 1\<rparr>)
           else (0, c1\<lparr>connected := True\<rparr>))"

definition close_connection :: "SafekeeperClient \<Rightarrow> SafekeeperClient" where
  "close_connection c =
     (let c1 = (if socket_fd c \<ge> 0 then c\<lparr>socket_fd := - 1\<rparr> else c)
      in c1\<lparr>connected := False\<rparr>)"

definition reconnect_if_needed :: "net_env \<Rightarrow> SafekeeperClient \<Rightarrow> int \<times> SafekeeperClient" where
  "reconnect_if_needed env c =
     (if \<not> connected c then establish_connection env c else (0, c))"

definition send_message ::
  "net_env \<Rightarrow> SafekeeperClient \<Rightarrow> bytes \<Rightarrow> nat \<Rightarrow> int \<times> SafekeeperClient" where
  "send_message env c data_buf len =
     (if \<not> connected c \<or> socket_fd c < 0 then (- 1, c)
      else
        let bytes_sent = (case send_accepts env of None \<Rightarrow> - 1 | Some k \<Rightarrow> int (min k len));
            c1 = c\<lparr>net_log := net_log c @ [Ev_send (take len data_buf)]\<rparr>
        in (if bytes_sent = int len then 0 else - 1, c1))"

text \<open>
  \<^verbatim>\<open>receive_message\<close> returns its status, the contents of the caller's buffer up to the NUL
  it stores (nothing is stored when nothing arrives), and the client.
\<close>

definition receive_message ::
  "net_env \<Rightarrow> SafekeeperClient \<Rightarrow> nat \<Rightarrow> int \<times> bytes \<times> SafekeeperClient" where
  "receive_message env c buffer_size =
     (if \<not> connected c \<or> socket_fd c < 0 then (- 1, [], c)
      else
        let c1 = c\<lparr>net_log := net_log c @ [Ev_recv]\<rparr>;
            got = (case recv_reply env of None \<Rightarrow> [] | Some d \<Rightarrow> take (buffer_size - 1) d);
            bytes_received = (case recv_reply env of None \<Rightarrow> - 1 | Some d \<Rightarrow> int (length got))
        in if bytes_received > 0 then (bytes_received, got, c1) else (- 1, [], c1))"

text \<open>
  \<^verbatim>\<open>snprintf\<close> of the append request. The precision of \<^verbatim>\<open>%.*s\<close> is \<^verbatim>\<open>(int)record.length\<close>:
  a negative one counts as no precision. The result is the return value and the buffer.
\<close>

definition serialize_append_request :: "TimelineId \<Rightarrow> WalRecord \<Rightarrow> nat \<Rightarrow> int \<times> bytes" where
  \<open>serialize_append_request timeline record buffer_size =
     (let precision = sint (wal_length record);
          shown = (if precision < 0 then c_str (wal_data record)
                   else c_str (take (nat precision) (wal_data record)));
          out = ''{"type":"append","timeline_id":'' @ show_nat (unat (tl_id timeline))
                @ '',"lsn":'' @ show_nat (unat (lsn record))
                @ '',"length":'' @ show_nat (unat (wal_length record))
                @ '',"data":"'' @ shown @ ''"}'';
          written = int (length out)
      in (if written < int buffer_size then written else - 1, take (buffer_size - 1) out))\<close>

text \<open>The result is the return value and the value stored in \<^verbatim>\<open>*committed_lsn\<close>.\<close>

definition deserialize_append_response :: "bytes \<Rightarrow> nat \<Rightarrow> int \<times> u64" where
  "deserialize_append_response buffer buffer_size = (0, 1)"

definition append_wal_record ::
  "net_env \<Rightarrow> SafekeeperClient \<Rightarrow> TimelineId \<Rightarrow> WalRecord \<Rightarrow> int \<times> SafekeeperClient" where
  "append_wal_record env c0 timeline record =
     (let c = c0\<lparr>net_log := net_log c0 @ [Ev_append timeline record]\<rparr>;
          (rc, c1) = reconnect_if_needed env c
      in if rc \<noteq> 0 then (- 1, c1)
         else
           let (request_length, request_buffer) =
                 serialize_append_request timeline record 4096
           in if request_length < 0 then (- 1, c1)
              else
                let (sent, c2) = send_message env c1 request_buffer (nat request_length)
                in if sent \<noteq> 0 then (- 1, c2)
                   else
                     let (received, response_buffer, c3) = receive_message env c2 1024
                     in if received < 0 then (- 1, c3)
                        else
                          let (ret, committed_lsn) =
                                deserialize_append_response response_buffer
                                  (length (c_str response_buffer))
                          in (ret, c3))"

definition append_wal_record_async ::
  "SafekeeperClient \<Rightarrow> TimelineId \<Rightarrow> WalRecord \<Rightarrow> int \<times> SafekeeperClient" where
  "append_wal_record_async c timeline record =
     (let request = \<lparr>req_timeline_id = timeline, req_record = record,
                     completed = False, result = 0\<rparr>
      in (0, c\<lparr>append_queue := append_queue c @ [request]\<rparr>))"

definition process_append_request ::
  "net_env \<Rightarrow> SafekeeperClient \<Rightarrow> WalAppendRequest \<Rightarrow> int \<times> SafekeeperClient" where
  "process_append_request env c request =
     append_wal_record env c (req_timeline_id request) (req_record request)"

text \<open>
  One iteration of the loop of \<^verbatim>\<open>worker_thread_main\<close>, taken when the worker holds the queue
  lock. With the shutdown flag set the loop is left; with nothing queued the worker keeps
  waiting; otherwise the front request is popped, processed, marked and deleted.
  \<open>Worker_processed\<close> carries the request as it is when \<^verbatim>\<open>delete request\<close> destroys it: that
  object exists nowhere afterwards, and the value is kept here only to say what was
  deleted.
\<close>

datatype worker_state = Worker_exited | Worker_waiting | Worker_processed WalAppendRequest

definition worker_thread_main_step ::
  "net_env \<Rightarrow> SafekeeperClient \<Rightarrow> worker_state \<times> SafekeeperClient" where
  "worker_thread_main_step env c =
     (if shutdown_requested c then (Worker_exited, c)
      else
        case append_queue c of
          [] \<Rightarrow> (Worker_waiting, c)
        | request # rest \<Rightarrow>
            let c1 = c\<lparr>append_queue := rest\<rparr>;
                (r, c2) = process_append_request env c1 request;
                request' = request\<lparr>result := r, completed := True\<rparr>
            in (Worker_processed request', c2))"

text \<open>What a log shows: the connection attempts, the messages sent, the appends called.\<close>

fun connect_attempts :: "net_event list \<Rightarrow> nat" where
  "connect_attempts [] = 0"
| "connect_attempts (Ev_connect_attempt # evs) = Suc (connect_attempts evs)"
| "connect_attempts (_ # evs) = connect_attempts evs"

fun sent_messages :: "net_event list \<Rightarrow> bytes list" where
  "sent_messages [] = []"
| "sent_messages (Ev_send msg # evs) = msg # sent_messages evs"
| "sent_messages (_ # evs) = sent_messages evs"

fun issued_appends :: "net_event list \<Rightarrow> (TimelineId \<times> WalRecord) list" where
  "issued_appends [] = []"
| "issued_appends (Ev_append timeline record # evs) = (timeline, record) # issued_appends evs"
| "issued_appends (_ # evs) = issued_appends evs"

text \<open>
  Whether an operation that starts on client \<open>c\<close> gets a usable connection: a client that is
  connected needs a valid descriptor, one that is not needs \<^verbatim>\<open>socket\<close>, \<^verbatim>\<open>inet_pton\<close> and
  \<^verbatim>\<open>connect\<close> to succeed.
\<close>

definition link_ready :: "net_env \<Rightarrow> SafekeeperClient \<Rightarrow> bool" where
  "link_ready env c =
     (if connected c then 0 \<le> socket_fd c
      else 0 \<le> socket_ret env \<and> 0 < inet_pton_ret env \<and> 0 \<le> connect_ret env)"

text \<open>The fields of a client that the program itself holds (all but the log).\<close>

definition program_state :: "SafekeeperClient \<Rightarrow> int \<times> bool \<times> WalAppendRequest list \<times> bool" where
  "program_state c = (socket_fd c, connected c, append_queue c, shutdown_requested c)"

text \<open>
  The asynchronous pipeline of one client as a sequence of atomic steps, in the order in
  which they take the queue lock: a caller submits a record, the worker runs one iteration
  of its loop, or the destructor sets the shutdown flag.
\<close>

datatype pipeline_op =
  Submit TimelineId WalRecord
  | Worker net_env
  | Shutdown

fun pipeline_step :: "pipeline_op \<Rightarrow> SafekeeperClient \<Rightarrow> SafekeeperClient" where
  "pipeline_step (Submit timeline record) c = snd (append_wal_record_async c timeline record)"
| "pipeline_step (Worker env) c = snd (worker_thread_main_step env c)"
| "pipeline_step Shutdown c = c\<lparr>shutdown_requested := True\<rparr>"

definition run_pipeline :: "pipeline_op list \<Rightarrow> SafekeeperClient \<Rightarrow> SafekeeperClient" where
  "run_pipeline ops c = fold pipeline_step ops c"

fun submitted :: "pipeline_op list \<Rightarrow> (TimelineId \<times> WalRecord) list" where
  "submitted [] = []"
| "submitted (Submit timeline record # ops) = (timeline, record) # submitted ops"
| "submitted (_ # ops) = submitted ops"

definition queued :: "SafekeeperClient \<Rightarrow> (TimelineId \<times> WalRecord) list" where
  "queued c = map (\<lambda>request. (req_timeline_id request, req_record request)) (append_queue c)"

text \<open>The message that \<^verbatim>\<open>append_wal_record\<close> hands to \<^verbatim>\<open>send\<close> for a timeline and a record.\<close>

definition wire_form :: "TimelineId \<times> WalRecord \<Rightarrow> bytes" where
  "wire_form a = snd (serialize_append_request (fst a) (snd a) 4096)"

section \<open>Connection pool (connection\_pool.cc)\<close>

text \<open>
  A connection is named by the identity of its client object (its address). The queue
  \<^verbatim>\<open>available_*_connections\<close> is a list with its front first, the vector
  \<^verbatim>\<open>all_*_connections\<close> a list in index order. An entry of either is the pointer it
  holds; which of two smart pointers to one object owns it has no part in the lists'
  contents. The counters are \<^verbatim>\<open>std::atomic<uint64_t>\<close>.
\<close>

type_synonym conn = nat

record ConnectionPool =
  available_pageserver_connections :: "conn list"
  all_pageserver_connections :: "conn list"
  available_safekeeper_connections :: "conn list"
  all_safekeeper_connections :: "conn list"
  max_pageserver_connections :: nat
  max_safekeeper_connections :: nat
  min_pageserver_connections :: nat
  min_safekeeper_connections :: nat
  pageserver_requests :: u64
  safekeeper_requests :: u64
  pageserver_cache_hits :: u64
  safekeeper_cache_hits :: u64

definition ConnectionPool_init :: "nat \<Rightarrow> nat \<Rightarrow> nat \<Rightarrow> nat \<Rightarrow> ConnectionPool" where
  "ConnectionPool_init min_pageserver max_pageserver min_safekeeper max_safekeeper =
     \<lparr>available_pageserver_connections = [], all_pageserver_connections = [],
      available_safekeeper_connections = [], all_safekeeper_connections = [],
      max_pageserver_connections = max_pageserver,
      max_safekeeper_connections = max_safekeeper,
      min_pageserver_connections = min_pageserver,
      min_safekeeper_connections = min_safekeeper,
      pageserver_requests = 0, safekeeper_requests = 0,
      pageserver_cache_hits = 0, safekeeper_cache_hits = 0\<rparr>"

text \<open>The pool the plugin builds in \<^verbatim>\<open>serverless_init_func\<close>.\<close>

definition global_connection_pool_init :: ConnectionPool where
  "global_connection_pool_init = ConnectionPool_init 5 20 3 10"

text \<open>
  Creating a client either yields a new object (\<open>Some\<close> of its identity) or throws, which
  the \<^verbatim>\<open>catch\<close> turns into a null result (\<open>None\<close>); that outcome is the argument \<open>fresh\<close>.
  The health test of a non-null client is the placeholder that always holds.
\<close>

definition is_connection_healthy :: "conn option \<Rightarrow> bool" where
  "is_connection_healthy client = (case client of None \<Rightarrow> False | Some c \<Rightarrow> True)"

definition create_pageserver_connection :: "conn option \<Rightarrow> conn option" where
  "create_pageserver_connection fresh =
     (case fresh of
        None \<Rightarrow> None
      | Some client \<Rightarrow> if \<not> is_connection_healthy (Some client) then None else Some client)"

definition create_safekeeper_connection :: "conn option \<Rightarrow> conn option" where
  "create_safekeeper_connection fresh =
     (case fresh of
        None \<Rightarrow> None
      | Some client \<Rightarrow> if \<not> is_connection_healthy (Some client) then None else Some client)"

text \<open>
  \<^verbatim>\<open>wait_for\<close> returns its predicate as it is when the wait ends, under the pool's mutex:
  the step below is what the call does from that moment on, on the pool as it is then
  (the request counter, incremented before the lock is taken, is counted in).
\<close>

definition get_pageserver_connection ::
  "conn option \<Rightarrow> ConnectionPool \<Rightarrow> conn option \<times> ConnectionPool" where
  "get_pageserver_connection fresh p0 =
     (let p = p0\<lparr>pageserver_requests := pageserver_requests p0 + 1\<rparr>
      in if \<not> (available_pageserver_connections p \<noteq> []) then
           (if length (all_pageserver_connections p) < max_pageserver_connections p then
              (case create_pageserver_connection fresh of
                 Some client \<Rightarrow>
                   (Some client,
                    p\<lparr>all_pageserver_connections := all_pageserver_connections p @ [client]\<rparr>)
               | None \<Rightarrow> (None, p))
            else (None, p))
         else
           (Some (hd (available_pageserver_connections p)),
            p\<lparr>available_pageserver_connections := tl (available_pageserver_connections p),
              pageserver_cache_hits := pageserver_cache_hits p + 1\<rparr>))"

definition get_safekeeper_connection ::
  "conn option \<Rightarrow> ConnectionPool \<Rightarrow> conn option \<times> ConnectionPool" where
  "get_safekeeper_connection fresh p0 =
     (let p = p0\<lparr>safekeeper_requests := safekeeper_requests p0 + 1\<rparr>
      in if \<not> (available_safekeeper_connections p \<noteq> []) then
           (if length (all_safekeeper_connections p) < max_safekeeper_connections p then
              (case create_safekeeper_connection fresh of
                 Some client \<Rightarrow>
                   (Some client,
                    p\<lparr>all_safekeeper_connections := all_safekeeper_connections p @ [client]\<rparr>)
               | None \<Rightarrow> (None, p))
            else (None, p))
         else
           (Some (hd (available_safekeeper_connections p)),
            p\<lparr>available_safekeeper_connections := tl (available_safekeeper_connections p),
              safekeeper_cache_hits := safekeeper_cache_hits p + 1\<rparr>))"

text \<open>\<^verbatim>\<open>find_if\<close> yields the first entry that holds the pointer; \<^verbatim>\<open>erase\<close> removes that entry.\<close>

definition return_pageserver_connection :: "conn option \<Rightarrow> ConnectionPool \<Rightarrow> ConnectionPool" where
  "return_pageserver_connection client_ptr p =
     (case client_ptr of
        None \<Rightarrow> p
      | Some client \<Rightarrow>
          if client \<in> set (all_pageserver_connections p) then
            p\<lparr>available_pageserver_connections := available_pageserver_connections p @ [client],
              all_pageserver_connections := remove1 client (all_pageserver_connections p)\<rparr>
          else p)"

definition return_safekeeper_connection :: "conn option \<Rightarrow> ConnectionPool \<Rightarrow> ConnectionPool" where
  "return_safekeeper_connection client_ptr p =
     (case client_ptr of
        None \<Rightarrow> p
      | Some client \<Rightarrow>
          if client \<in> set (all_safekeeper_connections p) then
            p\<lparr>available_safekeeper_connections := available_safekeeper_connections p @ [client],
              all_safekeeper_connections := remove1 client (all_safekeeper_connections p)\<rparr>
          else p)"

text \<open>
  \<^verbatim>\<open>warm_connections\<close>; \<open>fresh_ps\<close> and \<open>fresh_sk\<close> are the outcomes of the successive
  creations. The page half follows the source's five passes: create into the queue, move
  the queue to the vector, release every vector entry back into the queue and clear the
  vector, move the queue to the vector again, and queue a second pointer to every vector
  entry.
\<close>

definition warm_connections ::
  "conn option list \<Rightarrow> conn option list \<Rightarrow> ConnectionPool \<Rightarrow> ConnectionPool" where
  "warm_connections fresh_ps fresh_sk p0 =
     (let created_ps =
            List.map_filter create_pageserver_connection
              (take (min_pageserver_connections p0) fresh_ps);
          p1 = p0\<lparr>available_pageserver_connections :=
                    available_pageserver_connections p0 @ created_ps\<rparr>;
          p2 = p1\<lparr>all_pageserver_connections :=
                    all_pageserver_connections p1 @ available_pageserver_connections p1,
                  available_pageserver_connections := []\<rparr>;
          p3 = p2\<lparr>available_pageserver_connections :=
                    available_pageserver_connections p2 @ all_pageserver_connections p2,
                  all_pageserver_connections := []\<rparr>;
          p4 = p3\<lparr>all_pageserver_connections :=
                    all_pageserver_connections p3 @ available_pageserver_connections p3,
                  available_pageserver_connections := []\<rparr>;
          p5 = p4\<lparr>available_pageserver_connections :=
                    available_pageserver_connections p4 @ all_pageserver_connections p4\<rparr>;
          created_sk =
            List.map_filter create_safekeeper_connection
              (take (min_safekeeper_connections p5) fresh_sk);
          p6 = p5\<lparr>all_safekeeper_connections := all_safekeeper_connections p5 @ created_sk\<rparr>
      in p6\<lparr>available_safekeeper_connections :=
              available_safekeeper_connections p6 @ all_safekeeper_connections p6\<rparr>)"

text \<open>
  The pool of the plugin when \<^verbatim>\<open>serverless_init_func\<close> returns, every creation having
  succeeded: \<^verbatim>\<open>initialize\<close> warms it once (page clients 1 to 5, log clients 11 to 13), and
  \<^verbatim>\<open>serverless_init_func\<close> calls \<^verbatim>\<open>warm_connections\<close> a second time (page clients 6 to 10,
  log clients 14 to 16).
\<close>

definition warmed_pool :: ConnectionPool where
  "warmed_pool =
     warm_connections [Some 6, Some 7, Some 8, Some 9, Some 10] [Some 14, Some 15, Some 16]
       (warm_connections [Some 1, Some 2, Some 3, Some 4, Some 5] [Some 11, Some 12, Some 13]
          global_connection_pool_init)"

text \<open>
  A pool built with one connection of each kind as minimum and maximum,
  \<^verbatim>\<open>ConnectionPool(1, 1, 1, 1)\<close>, after \<^verbatim>\<open>initialize\<close>: page client 1 and log client 11.
\<close>

definition single_pool :: ConnectionPool where
  "single_pool = warm_connections [Some 1] [Some 11] (ConnectionPool_init 1 1 1 1)"

section \<open>Page cache of the table handler (ha\_serverless.h, ha\_serverless.cc)\<close>

record CachedPage =
  page_id :: PageId
  page_data :: bytes
  page_lsn :: u64
  dirty :: bool
  last_access :: int

definition CachedPage_init :: "PageId \<Rightarrow> CachedPage" where
  "CachedPage_init pid =
     \<lparr>page_id = pid, page_data = [], page_lsn = 0, dirty = False, last_access = 0\<rparr>"

definition MAX_CACHED_PAGES :: nat where
  "MAX_CACHED_PAGES = 1024"

definition MARIADB_PAGE_SIZE :: nat where
  "MARIADB_PAGE_SIZE = 16384"

text \<open>
  \<^verbatim>\<open>HA_ERR_GENERIC\<close> comes from MariaDB's \<^verbatim>\<open>my_base.h\<close> (168 there); the handler only
  returns it.
\<close>

definition HA_ERR_GENERIC :: int where
  "HA_ERR_GENERIC = 168"

text \<open>
  The handler. \<^verbatim>\<open>page_cache\<close> (an \<^verbatim>\<open>unordered_map\<close> from packed keys to pages) is an
  association list with one entry per key: \<open>map_of\<close> is \<^verbatim>\<open>find\<close>, \<open>AList.update\<close> is
  \<^verbatim>\<open>page_cache[key] = page\<close>, \<open>AList.delete\<close> is \<^verbatim>\<open>erase\<close> and the length is \<^verbatim>\<open>size()\<close>;
  the order of the entries stands for the map's iteration order. \<^verbatim>\<open>lru_list\<close> has its
  front first. \<open>network_calls\<close> is the counter of the global \<^verbatim>\<open>perf_stats\<close>. \<^verbatim>\<open>time_t\<close> is an
  integer.

  Two fields are instrumentation: \<open>writebacks\<close> lists the calls of
  \<^verbatim>\<open>write_page_to_safekeeper\<close> (page and data), \<open>appends\<close> the calls of \<^verbatim>\<open>append_wal_record\<close>
  made by them (timeline and record), both in order.
\<close>

record ha_serverless =
  current_timeline :: TimelineId
  current_lsn :: u64
  page_cache :: "(u64 \<times> CachedPage) list"
  lru_list :: "u64 list"
  network_calls :: u64
  writebacks :: "(PageId \<times> bytes) list"
  appends :: "(TimelineId \<times> WalRecord) list"

definition ha_serverless_init :: ha_serverless where
  "ha_serverless_init =
     \<lparr>current_timeline = \<lparr>tl_id = 0\<rparr>, current_lsn = 0, page_cache = [], lru_list = [],
      network_calls = 0, writebacks = [], appends = []\<rparr>"

definition page_key :: "PageId \<Rightarrow> u64" where
  "page_key pid = (push_bit 32 (timeline_id pid)) OR ucast (page_number pid)"

text \<open>
  The pool and the services are the handler's environment. A page lease is what
  \<^verbatim>\<open>get_pageserver_connection\<close> hands to one read: no client (\<open>None\<close>), or a page client
  and the page service's behaviour. A log lease gives, for the write-back with a given
  sequence number, what \<^verbatim>\<open>get_safekeeper_connection\<close> hands out: no client, or a log
  client and the network's behaviour during its append.
\<close>

type_synonym page_lease = "(PageserverClient \<times> page_service) option"
type_synonym log_lease = "nat \<Rightarrow> (SafekeeperClient \<times> net_env) option"

definition write_page_to_safekeeper ::
  "log_lease \<Rightarrow> PageId \<Rightarrow> bytes \<Rightarrow> ha_serverless \<Rightarrow> int \<times> ha_serverless" where
  "write_page_to_safekeeper sk pid data_buf h =
     (let h1 = h\<lparr>network_calls := network_calls h + 1,
                 writebacks := writebacks h @ [(pid, data_buf)]\<rparr>
      in case sk (length (writebacks h)) of
           None \<Rightarrow> (HA_ERR_GENERIC, h1)
         | Some (client, env) \<Rightarrow>
             let record = \<lparr>lsn = current_lsn h1, wal_length = of_nat MARIADB_PAGE_SIZE,
                           wal_data = data_buf\<rparr>;
                 h2 = h1\<lparr>current_lsn := current_lsn h1 + 1,
                         appends := appends h1 @ [(current_timeline h1, record)]\<rparr>;
                 res = fst (append_wal_record env client (current_timeline h2) record)
             in (res, h2))"

definition evict_page_from_cache :: "log_lease \<Rightarrow> u64 \<Rightarrow> ha_serverless \<Rightarrow> ha_serverless" where
  "evict_page_from_cache sk key h =
     (let h1 = (case map_of (page_cache h) key of
                  Some page \<Rightarrow>
                    let h' = (if dirty page
                              then snd (write_page_to_safekeeper sk (page_id page) (page_data page) h)
                              else h)
                    in h'\<lparr>page_cache := AList.delete key (page_cache h')\<rparr>
                | None \<Rightarrow> h)
      in h1\<lparr>lru_list := removeAll key (lru_list h1)\<rparr>)"

text \<open>
  The result is the return value, the caller's buffer and the handler. \<open>now\<close> is the value
  of \<^verbatim>\<open>time(nullptr)\<close> for this call (each path reads the clock once).
\<close>

definition read_page_from_cache_or_pageserver ::
  "int \<Rightarrow> page_lease \<Rightarrow> log_lease \<Rightarrow> PageId \<Rightarrow> bytes \<Rightarrow> ha_serverless
     \<Rightarrow> int \<times> bytes \<times> ha_serverless" where
  "read_page_from_cache_or_pageserver now ps sk pid buffer h =
     (let key = page_key pid
      in case map_of (page_cache h) key of
           Some page \<Rightarrow>
             (0, memcpy buffer (page_data page) MARIADB_PAGE_SIZE,
              h\<lparr>page_cache := AList.update key (page\<lparr>last_access := now\<rparr>) (page_cache h)\<rparr>)
         | None \<Rightarrow>
             let h1 = h\<lparr>network_calls := network_calls h + 1\<rparr>
             in case ps of
                  None \<Rightarrow> (HA_ERR_GENERIC, buffer, h1)
                | Some (client, service) \<Rightarrow>
                    let (res, buffer') = read_page client service pid buffer MARIADB_PAGE_SIZE
                    in if res = 0 then
                         let h2 = (if length (page_cache h1) \<ge> MAX_CACHED_PAGES
                                   then evict_page_from_cache sk (last (lru_list h1)) h1
                                   else h1);
                             new_page = (CachedPage_init pid)
                               \<lparr>page_data := take MARIADB_PAGE_SIZE buffer',
                                 last_access := now\<rparr>
                         in (res, buffer',
                             h2\<lparr>page_cache := AList.update key new_page (page_cache h2),
                                lru_list := key # lru_list h2\<rparr>)
                       else (res, buffer', h1))"

text \<open>\<^verbatim>\<open>ha_serverless::close\<close>: one pass over the cache, in the map's iteration order.\<close>

definition close :: "log_lease \<Rightarrow> ha_serverless \<Rightarrow> int \<times> ha_serverless" where
  "close sk h =
     (0, fold (\<lambda>entry h'. if dirty (snd entry)
                then snd (write_page_to_safekeeper sk (page_id (snd entry))
                            (page_data (snd entry)) h')
                else h')
           (page_cache h) h)"

text \<open>The destructor: every cached page is deleted and the map cleared.\<close>

definition ha_serverless_destroy :: "ha_serverless \<Rightarrow> ha_serverless" where
  "ha_serverless_destroy h = h\<lparr>page_cache := []\<rparr>"

text \<open>A run of page reads: each with its clock value, page lease, page and caller's buffer.\<close>

type_synonym page_read = "int \<times> page_lease \<times> PageId \<times> bytes"

fun read_pages :: "log_lease \<Rightarrow> page_read list \<Rightarrow> ha_serverless \<Rightarrow> ha_serverless" where
  "read_pages sk [] h = h"
| "read_pages sk ((now, ps, pid, buffer) # rest) h =
     read_pages sk rest
       (snd (snd (read_page_from_cache_or_pageserver now ps sk pid buffer h)))"

text \<open>
  The shape the cache keeps: one entry per key, every cached key once in \<^verbatim>\<open>lru_list\<close> and
  nothing else there, and no more entries than the capacity.
\<close>

definition cache_inv :: "ha_serverless \<Rightarrow> bool" where
  "cache_inv h =
     (distinct (map fst (page_cache h)) \<and> distinct (lru_list h)
      \<and> set (lru_list h) = set (map fst (page_cache h))
      \<and> length (page_cache h) \<le> MAX_CACHED_PAGES)"

text \<open>
  Inputs for a concrete run: a page client with a handle, a page service that answers every
  request with status 200 and a full page of zero bytes, a pool that never has a log client,
  and the read of page \<open>i\<close> of timeline 0 at clock value \<open>now\<close>. \<open>fill_cache\<close> reads the
  pages 0 to 1023, page \<open>i\<close> at time \<open>i + 1\<close>.
\<close>

definition example_client :: PageserverClient where
  "example_client = \<lparr>curl_handle = True, base_url = ''http://localhost:9997''\<rparr>"

definition zero_page :: bytes where
  "zero_page = replicate 16384 NUL"

definition zero_page_service :: page_service where
  "zero_page_service url = \<lparr>perform_ok = True, response_code = 200, body_chunks = [zero_page]\<rparr>"

definition no_log_client :: log_lease where
  "no_log_client n = None"

definition read_of :: "nat \<Rightarrow> int \<Rightarrow> page_read" where
  "read_of i now =
     (now, Some (example_client, zero_page_service),
      \<lparr>timeline_id = 0, page_number = of_nat i\<rparr>, zero_page)"

definition fill_cache :: "page_read list" where
  "fill_cache = map (\<lambda>i. read_of i (int i + 1)) [0..<1024]"

section \<open>The packed cache key\<close>

lemma page_key_low: "take_bit 32 (page_key p) = ucast (page_number p)"
  unfolding page_key_def
  by (rule bit_word_eqI) (auto simp add: bit_simps dest: bit_imp_le_length)

lemma page_key_high: "push_bit 32 (drop_bit 32 (page_key p)) = push_bit 32 (timeline_id p)"
  unfolding page_key_def
  by (rule bit_word_eqI) (auto simp add: bit_simps dest: bit_imp_le_length)

lemma ucast_u32_u64_inj:
  fixes a b :: u32
  assumes "(ucast a :: u64) = ucast b"
  shows "a = b"
proof (rule bit_word_eqI)
  fix n assume n: "n < LENGTH(32)"
  have "bit (ucast a :: u64) n = bit (ucast b :: u64) n"
    using assms by simp
  then show "bit a n = bit b n"
    using n by (simp add: bit_simps)
qed

text \<open>
  C9. Two distinct page ids whose timeline ids, where they differ, still differ after the
  shift by 32 bits have distinct packed keys. The page number is a 32-bit word, so it is
  below \<open>2 ^ 32\<close> by its type.
\<close>

theorem page_key_injective:
  assumes "p \<noteq> q"
    and "timeline_id p \<noteq> timeline_id q \<longrightarrow>
         push_bit 32 (timeline_id p) \<noteq> (push_bit 32 (timeline_id q) :: u64)"
  shows "page_key p \<noteq> page_key q"
proof
  assume eq: "page_key p = page_key q"
  have "(ucast (page_number p) :: u64) = ucast (page_number q)"
    using page_key_low [of p] page_key_low [of q] eq by simp
  then have n: "page_number p = page_number q"
    by (rule ucast_u32_u64_inj)
  have "push_bit 32 (timeline_id p) = push_bit 32 (timeline_id q)"
    using page_key_high [of p] page_key_high [of q] eq by simp
  with assms(2) have "timeline_id p = timeline_id q"
    by blast
  with n have "p = q"
    by simp
  with assms(1) show False
    by contradiction
qed

theorem page_key_injective_witness:
  "page_key \<lparr>timeline_id = 1, page_number = 5\<rparr> \<noteq> page_key \<lparr>timeline_id = 2, page_number = 5\<rparr>"
  using page_key_injective
    [of "\<lparr>timeline_id = 1, page_number = 5\<rparr>" "\<lparr>timeline_id = 2, page_number = 5\<rparr>"]
  by simp

section \<open>Reading a page from the page service\<close>

lemma fold_write_callback:
  assumes "resp_data r = Some d" and "resp_size r = length d"
  shows "fold (\<lambda>chunk r. snd (write_callback chunk r)) chunks r =
         r\<lparr>resp_data := Some (d @ concat chunks), resp_size := length d + length (concat chunks)\<rparr>"
  using assms
proof (induction chunks arbitrary: r d)
  case Nil
  then show ?case by simp
next
  case (Cons c cs)
  let ?r1 = "snd (write_callback c r)"
  have d1: "resp_data ?r1 = Some (d @ c)" and s1: "resp_size ?r1 = length (d @ c)"
    using Cons.prems by (simp_all add: write_callback_def Let_def)
  show ?case
    using Cons.IH [OF d1 s1] Cons.prems
    by (simp add: write_callback_def Let_def)
qed

lemma fold_write_callback_init:
  "fold (\<lambda>chunk r. snd (write_callback chunk r)) chunks HttpResponse_init =
     (if chunks = [] then HttpResponse_init
      else \<lparr>resp_data = Some (concat chunks), resp_size = length (concat chunks)\<rparr>)"
proof (cases chunks)
  case Nil
  then show ?thesis by simp
next
  case (Cons c cs)
  let ?r1 = "snd (write_callback c HttpResponse_init)"
  have d1: "resp_data ?r1 = Some ([] @ c)" and s1: "resp_size ?r1 = length ([] @ c)"
    by (simp_all add: write_callback_def Let_def HttpResponse_init_def)
  show ?thesis
    using fold_write_callback [OF d1 s1, of cs] Cons
    by (simp add: write_callback_def Let_def HttpResponse_init_def)
qed

lemma read_page_char:
  "read_page client service pid buffer buffer_size =
     (let reply = service (build_page_url client pid); body = concat (body_chunks reply)
      in if curl_handle client \<and> perform_ok reply \<and> response_code reply = 200
            \<and> body_chunks reply \<noteq> [] \<and> length body \<le> buffer_size
         then (0, body @ replicate (buffer_size - length body) NUL @ drop buffer_size buffer)
         else (- 1, buffer))"
proof -
  have init: "resp_data HttpResponse_init = None"
    by (simp add: HttpResponse_init_def)
  show ?thesis
    by (auto simp add: read_page_def make_http_request_def fold_write_callback_init Let_def
        init memcpy_def memset_at_def)
qed

text \<open>
  C3, as the spec states it, fails: a reply with status 200 whose body is a single byte is
  not an error. \<^verbatim>\<open>read_page\<close> returns success and hands back that byte followed by 16383
  zero bytes.
\<close>

theorem read_page_short_response_counterexample:
  "length (concat (body_chunks \<lparr>perform_ok = True, response_code = 200, body_chunks = [''A'']\<rparr>))
     < 16384
   \<and> read_page \<lparr>curl_handle = True, base_url = ''http://localhost:9997''\<rparr>
        (\<lambda>url. \<lparr>perform_ok = True, response_code = 200, body_chunks = [''A'']\<rparr>)
        \<lparr>timeline_id = 1, page_number = 0\<rparr> (replicate 16384 (CHR ''x'')) 16384
      = (0, ''A'' @ replicate 16383 NUL)"
  by (simp add: read_page_char)

text \<open>
  C3, amended. \<^verbatim>\<open>read_page\<close> has two outcomes. It returns 0 with the first \<open>buffer_size\<close>
  bytes of the buffer all written (the body, then zero bytes up to \<open>buffer_size\<close>) exactly
  when the client has a handle, the transfer succeeded, the status is 200, a body was
  delivered and it is no longer than the buffer; a body shorter than the buffer is accepted
  and padded. In every other case (no handle, failed transfer, a status other than 200, no
  body, a body longer than the buffer) it returns -1 and leaves the buffer as it was.
\<close>

theorem read_page_padded_or_error:
  "read_page client service pid buffer buffer_size =
     (let reply = service (build_page_url client pid); body = concat (body_chunks reply)
      in if curl_handle client \<and> perform_ok reply \<and> response_code reply = 200
            \<and> body_chunks reply \<noteq> [] \<and> length body \<le> buffer_size
         then (0, body @ replicate (buffer_size - length body) NUL @ drop buffer_size buffer)
         else (- 1, buffer))"
  by (rule read_page_char)

theorem read_page_padded_or_error_witness:
  "read_page example_client zero_page_service \<lparr>timeline_id = 1, page_number = 0\<rparr>
      (replicate 16384 (CHR ''x'')) 16384 = (0, zero_page)
   \<and> read_page example_client
        (\<lambda>url. \<lparr>perform_ok = True, response_code = 404, body_chunks = [''Not Found'']\<rparr>)
        \<lparr>timeline_id = 1, page_number = 0\<rparr> (replicate 16384 (CHR ''x'')) 16384
      = (- 1, replicate 16384 (CHR ''x''))"
  using read_page_padded_or_error
      [of example_client zero_page_service "\<lparr>timeline_id = 1, page_number = 0\<rparr>"
          "replicate 16384 (CHR ''x'')" 16384]
    read_page_padded_or_error
      [of example_client
          "\<lambda>url. \<lparr>perform_ok = True, response_code = 404, body_chunks = [''Not Found'']\<rparr>"
          "\<lparr>timeline_id = 1, page_number = 0\<rparr>" "replicate 16384 (CHR ''x'')" 16384]
  by (simp add: example_client_def zero_page_service_def zero_page_def)

section \<open>The log client: synchronous append and connection state\<close>

lemma connect_attempts_append [simp]:
  "connect_attempts (xs @ ys) = connect_attempts xs + connect_attempts ys"
  by (induction xs rule: connect_attempts.induct) simp_all

lemma sent_messages_append [simp]:
  "sent_messages (xs @ ys) = sent_messages xs @ sent_messages ys"
  by (induction xs rule: sent_messages.induct) simp_all

lemma issued_appends_append [simp]:
  "issued_appends (xs @ ys) = issued_appends xs @ issued_appends ys"
  by (induction xs rule: issued_appends.induct) simp_all

lemma reconnect_if_needed_char:
  "reconnect_if_needed env c =
     (if connected c then (0, c)
      else if 0 \<le> socket_ret env \<and> 0 < inet_pton_ret env \<and> 0 \<le> connect_ret env
        then (0, c\<lparr>socket_fd := socket_ret env, connected := True,
                   net_log := net_log c @ [Ev_connect_attempt]\<rparr>)
        else (- 1, c\<lparr>socket_fd := (if socket_ret env < 0 then socket_ret env else - 1),
                     net_log := net_log c @ [Ev_connect_attempt]\<rparr>))"
  by (auto simp add: reconnect_if_needed_def establish_connection_def Let_def)

lemma serialize_fits:
  assumes "0 \<le> fst (serialize_append_request timeline wal 4096)"
  shows "take (nat (fst (serialize_append_request timeline wal 4096)))
           (snd (serialize_append_request timeline wal 4096))
         = snd (serialize_append_request timeline wal 4096)"
  using assms by (auto simp add: serialize_append_request_def Let_def split: if_splits)

text \<open>
  The synchronous append in one piece: which stage stops it, what it returns and what it
  leaves in the client.
\<close>

lemma append_wal_record_char:
  "append_wal_record env c timeline wal =
     (let c0 = c\<lparr>net_log := net_log c @ [Ev_append timeline wal]\<rparr>;
          c1 = snd (reconnect_if_needed env c0);
          request_length = fst (serialize_append_request timeline wal 4096);
          request = snd (serialize_append_request timeline wal 4096);
          sent = (case send_accepts env of None \<Rightarrow> False | Some k \<Rightarrow> nat request_length \<le> k);
          acked = (case recv_reply env of None \<Rightarrow> False | Some d \<Rightarrow> d \<noteq> [])
      in if \<not> (link_ready env c \<and> 0 \<le> request_length) then (- 1, c1)
         else if \<not> sent then (- 1, c1\<lparr>net_log := net_log c1 @ [Ev_send request]\<rparr>)
         else (if acked then 0 else - 1, c1\<lparr>net_log := net_log c1 @ [Ev_send request, Ev_recv]\<rparr>))"
proof -
  obtain n buf where ser: "serialize_append_request timeline wal 4096 = (n, buf)"
    by fastforce
  have fits: "0 \<le> n \<Longrightarrow> take (nat n) buf = buf"
    using serialize_fits [of timeline wal] ser by simp
  show ?thesis
    using fits
    by (auto simp add: append_wal_record_def reconnect_if_needed_char link_ready_def Let_def ser
        send_message_def receive_message_def deserialize_append_response_def
        split: option.splits)
qed

lemma append_wal_record_program_state:
  "program_state (snd (append_wal_record env c timeline wal)) =
     program_state (snd (reconnect_if_needed env c))"
  by (simp add: append_wal_record_char Let_def program_state_def reconnect_if_needed_char)

lemma append_wal_record_issued:
  "issued_appends (net_log (snd (append_wal_record env c timeline wal))) =
     issued_appends (net_log c) @ [(timeline, wal)]"
  by (simp add: append_wal_record_char Let_def reconnect_if_needed_char)

lemma append_wal_record_sent:
  "sent_messages (net_log (snd (append_wal_record env c timeline wal))) =
     sent_messages (net_log c) @
       (if link_ready env c \<and> 0 \<le> fst (serialize_append_request timeline wal 4096)
        then [snd (serialize_append_request timeline wal 4096)] else [])"
  by (simp add: append_wal_record_char Let_def reconnect_if_needed_char)

lemma append_wal_record_attempts:
  "connect_attempts (net_log (snd (append_wal_record env c timeline wal))) =
     connect_attempts (net_log c) + (if connected c then 0 else 1)"
  by (simp add: append_wal_record_char Let_def reconnect_if_needed_char)

lemma append_wal_record_status:
  "fst (append_wal_record env c timeline wal) =
     (if link_ready env c
         \<and> 0 \<le> fst (serialize_append_request timeline wal 4096)
         \<and> (case send_accepts env of None \<Rightarrow> False
             | Some k \<Rightarrow> nat (fst (serialize_append_request timeline wal 4096)) \<le> k)
         \<and> (case recv_reply env of None \<Rightarrow> False | Some d \<Rightarrow> d \<noteq> [])
      then 0 else - 1)"
  by (simp add: append_wal_record_char Let_def)

lemma serialize_example:
  \<open>serialize_append_request \<lparr>tl_id = 7\<rparr> \<lparr>lsn = 42, wal_length = 3, wal_data = ''abc''\<rparr> 4096
   = (66, ''{"type":"append","timeline_id":7,"lsn":42,"length":3,"data":"abc"}'')\<close>
  by (simp add: serialize_append_request_def Let_def show_nat.simps c_str_def NUL_def)

text \<open>
  C4, as the spec states it, fails: the service acknowledges the append of the record with
  LSN 42 and reports 42 as committed; the call returns 0, and the decoder yields 1 for that
  acknowledgment.
\<close>

theorem append_wal_record_lsn_counterexample:
  \<open>fst (append_wal_record
          \<lparr>socket_ret = 3, inet_pton_ret = 1, connect_ret = 0, send_accepts = Some 4096,
           recv_reply = Some ''{"committed_lsn":42}''\<rparr>
          SafekeeperClient_init \<lparr>tl_id = 7\<rparr> \<lparr>lsn = 42, wal_length = 3, wal_data = ''abc''\<rparr>) = 0
   \<and> deserialize_append_response ''{"committed_lsn":42}'' 20 = (0, 1)\<close>
  by (simp add: append_wal_record_status serialize_example link_ready_def SafekeeperClient_init_def
      deserialize_append_response_def)

text \<open>
  C4, amended. \<^verbatim>\<open>append_wal_record\<close> returns a status, never an LSN: 0 exactly when the
  connection is usable, the serialized request fits the 4096-byte buffer, \<^verbatim>\<open>send\<close> takes the
  whole request and \<^verbatim>\<open>recv\<close> delivers at least one byte; -1 otherwise, in particular when
  no acknowledgment arrives. It hands at most one message to \<^verbatim>\<open>send\<close>, the serialized
  request, and does so whenever the connection is usable and the request fits. The decoder
  of the acknowledgment stores the placeholder 1 as committed LSN whatever the service
  sent, and that value is not returned.
\<close>

theorem append_wal_record_returns_status:
  "fst (append_wal_record env c timeline wal) =
     (if link_ready env c
         \<and> 0 \<le> fst (serialize_append_request timeline wal 4096)
         \<and> (case send_accepts env of None \<Rightarrow> False
             | Some k \<Rightarrow> nat (fst (serialize_append_request timeline wal 4096)) \<le> k)
         \<and> (case recv_reply env of None \<Rightarrow> False | Some d \<Rightarrow> d \<noteq> [])
      then 0 else - 1)
   \<and> sent_messages (net_log (snd (append_wal_record env c timeline wal))) =
     sent_messages (net_log c) @
       (if link_ready env c \<and> 0 \<le> fst (serialize_append_request timeline wal 4096)
        then [snd (serialize_append_request timeline wal 4096)] else [])
   \<and> deserialize_append_response ack n = (0, 1)"
  using append_wal_record_status append_wal_record_sent
  by (simp add: deserialize_append_response_def)

theorem append_wal_record_returns_status_witness:
  \<open>fst (append_wal_record
          \<lparr>socket_ret = 3, inet_pton_ret = 1, connect_ret = 0, send_accepts = Some 4096,
           recv_reply = None\<rparr>
          SafekeeperClient_init \<lparr>tl_id = 7\<rparr> \<lparr>lsn = 42, wal_length = 3, wal_data = ''abc''\<rparr>) = - 1
   \<and> sent_messages (net_log (snd (append_wal_record
          \<lparr>socket_ret = 3, inet_pton_ret = 1, connect_ret = 0, send_accepts = Some 4096,
           recv_reply = None\<rparr>
          SafekeeperClient_init \<lparr>tl_id = 7\<rparr> \<lparr>lsn = 42, wal_length = 3, wal_data = ''abc''\<rparr>)))
      = [''{"type":"append","timeline_id":7,"lsn":42,"length":3,"data":"abc"}'']\<close>
  using append_wal_record_returns_status
    [of "\<lparr>socket_ret = 3, inet_pton_ret = 1, connect_ret = 0, send_accepts = Some 4096,
           recv_reply = None\<rparr>"
        SafekeeperClient_init "\<lparr>tl_id = 7\<rparr>"
        "\<lparr>lsn = 42, wal_length = 3, wal_data = ''abc''\<rparr>"]
  by (simp add: serialize_example link_ready_def SafekeeperClient_init_def)

text \<open>
  C5, as the spec states it, fails: on a connected client an append whose \<^verbatim>\<open>send\<close> fails
  returns -1 and leaves the client connected, and the next append on that client makes no
  attempt to connect.
\<close>

theorem failed_send_stays_connected_counterexample:
  "(let failing = \<lparr>socket_ret = 4, inet_pton_ret = 1, connect_ret = 0, send_accepts = None,
                    recv_reply = None\<rparr>;
        c = SafekeeperClient_init\<lparr>socket_fd := 3, connected := True\<rparr>;
        timeline = \<lparr>tl_id = 7\<rparr>;
        wal = \<lparr>lsn = 42, wal_length = 3, wal_data = ''abc''\<rparr>;
        first = append_wal_record failing c timeline wal;
        second = append_wal_record failing (snd first) timeline wal
    in fst first = - 1 \<and> connected (snd first)
       \<and> sent_messages (net_log (snd first)) \<noteq> []
       \<and> connect_attempts (net_log (snd second)) = 0)"
  by (simp add: Let_def append_wal_record_char serialize_example link_ready_def
      SafekeeperClient_init_def reconnect_if_needed_char)

text \<open>
  C5, amended. The connection state is the one flag \<open>connected\<close>. Neither \<^verbatim>\<open>send_message\<close>
  nor \<^verbatim>\<open>receive_message\<close> changes the client, whether it succeeds or fails. After an
  append the client is connected exactly when it was connected before or the connection
  was established during the call. An append attempts to connect once when it starts on a
  client that is not connected and never otherwise, and it returns -1 when it gets no
  usable connection.
\<close>

theorem failed_transfer_keeps_connection_state:
  "program_state (snd (send_message env c buf n)) = program_state c
   \<and> program_state (snd (snd (receive_message env c m))) = program_state c
   \<and> connected (snd (append_wal_record env c timeline wal)) =
       (connected c \<or> (0 \<le> socket_ret env \<and> 0 < inet_pton_ret env \<and> 0 \<le> connect_ret env))
   \<and> connect_attempts (net_log (snd (append_wal_record env c timeline wal))) =
       connect_attempts (net_log c) + (if connected c then 0 else 1)
   \<and> (link_ready env c \<or> fst (append_wal_record env c timeline wal) = - 1)"
proof -
  have "program_state (snd (send_message env c buf n)) = program_state c"
    by (simp add: send_message_def program_state_def Let_def)
  moreover have "program_state (snd (snd (receive_message env c m))) = program_state c"
    by (simp add: receive_message_def program_state_def Let_def)
  moreover have "connected (snd (append_wal_record env c timeline wal)) =
       (connected c \<or> (0 \<le> socket_ret env \<and> 0 < inet_pton_ret env \<and> 0 \<le> connect_ret env))"
    using append_wal_record_program_state [of env c timeline wal]
    by (auto simp add: program_state_def reconnect_if_needed_char)
  moreover have "link_ready env c \<or> fst (append_wal_record env c timeline wal) = - 1"
    by (simp add: append_wal_record_status)
  ultimately show ?thesis
    using append_wal_record_attempts by simp
qed

theorem failed_transfer_keeps_connection_state_witness:
  "(let refused = \<lparr>socket_ret = 4, inet_pton_ret = 0, connect_ret = 0, send_accepts = None,
                    recv_reply = None\<rparr>;
        after = append_wal_record refused SafekeeperClient_init \<lparr>tl_id = 7\<rparr>
                  \<lparr>lsn = 42, wal_length = 3, wal_data = ''abc''\<rparr>
    in fst after = - 1 \<and> connected (snd after) = False
       \<and> connect_attempts (net_log (snd after)) = 1)"
  using failed_transfer_keeps_connection_state
    [of "\<lparr>socket_ret = 4, inet_pton_ret = 0, connect_ret = 0, send_accepts = None,
           recv_reply = None\<rparr>"
        SafekeeperClient_init "[]" 0 0 "\<lparr>tl_id = 7\<rparr>"
        "\<lparr>lsn = 42, wal_length = 3, wal_data = ''abc''\<rparr>"]
  by (simp add: Let_def link_ready_def SafekeeperClient_init_def)

section \<open>The asynchronous append pipeline\<close>

lemma reconnect_keeps_queue [simp]:
  "append_queue (snd (reconnect_if_needed env c)) = append_queue c"
  "shutdown_requested (snd (reconnect_if_needed env c)) = shutdown_requested c"
  by (simp_all add: reconnect_if_needed_char)

lemma worker_step_program_state:
  "program_state (snd (worker_thread_main_step env c)) =
     (if shutdown_requested c then program_state c
      else case append_queue c of
             [] \<Rightarrow> program_state c
           | request # rest \<Rightarrow>
               program_state (snd (reconnect_if_needed env (c\<lparr>append_queue := rest\<rparr>))))"
  by (simp add: worker_thread_main_step_def process_append_request_def Let_def case_prod_beta
      append_wal_record_program_state split: list.splits)

lemma pipeline_step_order:
  "issued_appends (net_log (pipeline_step x c)) @ queued (pipeline_step x c)
     = issued_appends (net_log c) @ queued c @ submitted [x]"
proof (cases x)
  case (Submit timeline wal)
  then show ?thesis
    by (simp add: append_wal_record_async_def queued_def Let_def)
next
  case (Worker env)
  then show ?thesis
    using append_wal_record_program_state [of env]
    by (simp add: worker_thread_main_step_def process_append_request_def Let_def queued_def
        case_prod_beta append_wal_record_issued program_state_def split: list.splits)
next
  case Shutdown
  then show ?thesis
    by (simp add: queued_def)
qed

lemma run_pipeline_order:
  "issued_appends (net_log (run_pipeline ops c)) @ queued (run_pipeline ops c)
     = issued_appends (net_log c) @ queued c @ submitted ops"
proof (induction ops arbitrary: c)
  case Nil
  then show ?case
    by (simp add: run_pipeline_def)
next
  case (Cons x ops)
  have sub: "submitted (x # ops) = submitted [x] @ submitted ops"
    by (cases x) simp_all
  have "run_pipeline (x # ops) c = run_pipeline ops (pipeline_step x c)"
    by (simp add: run_pipeline_def)
  then show ?case
    using Cons.IH [of "pipeline_step x c"] pipeline_step_order [of x c] sub
    by (metis append.assoc)
qed

lemma pipeline_step_sends:
  assumes "subseq (sent_messages (net_log c)) (map wire_form (issued_appends (net_log c)))"
  shows "subseq (sent_messages (net_log (pipeline_step x c)))
           (map wire_form (issued_appends (net_log (pipeline_step x c))))"
proof (cases x)
  case (Submit timeline wal)
  then show ?thesis
    using assms by (simp add: append_wal_record_async_def Let_def)
next
  case (Worker env)
  show ?thesis
  proof (cases "shutdown_requested c \<or> append_queue c = []")
    case True
    then show ?thesis
      using assms Worker
      by (auto simp add: worker_thread_main_step_def split: list.splits)
  next
    case False
    then obtain request rest where q: "append_queue c = request # rest"
      by (cases "append_queue c") auto
    let ?c1 = "c\<lparr>append_queue := rest\<rparr>"
    let ?t = "req_timeline_id request"
    let ?r = "req_record request"
    have step: "pipeline_step x c = snd (append_wal_record env ?c1 ?t ?r)"
      using False Worker q
      by (simp add: worker_thread_main_step_def process_append_request_def Let_def case_prod_beta)
    have one: "subseq (if link_ready env ?c1 \<and> 0 \<le> fst (serialize_append_request ?t ?r 4096)
                       then [snd (serialize_append_request ?t ?r 4096)] else [])
                 [wire_form (?t, ?r)]"
      by (simp add: wire_form_def)
    show ?thesis
      unfolding step append_wal_record_sent append_wal_record_issued
      using assms one
      by (simp add: list_emb_append_mono)
  qed
next
  case Shutdown
  then show ?thesis
    using assms by simp
qed

lemma run_pipeline_sends:
  assumes "subseq (sent_messages (net_log c)) (map wire_form (issued_appends (net_log c)))"
  shows "subseq (sent_messages (net_log (run_pipeline ops c)))
           (map wire_form (issued_appends (net_log (run_pipeline ops c))))"
  using assms
proof (induction ops arbitrary: c)
  case Nil
  then show ?case
    by (simp add: run_pipeline_def)
next
  case (Cons x ops)
  have "run_pipeline (x # ops) c = run_pipeline ops (pipeline_step x c)"
    by (simp add: run_pipeline_def)
  then show ?case
    using Cons.IH [OF pipeline_step_sends [OF Cons.prems]] by simp
qed

text \<open>What one iteration of the worker does to the log and to the queue.\<close>

lemma worker_step_log:
  "issued_appends (net_log (snd (worker_thread_main_step env c))) =
     issued_appends (net_log c) @ (if shutdown_requested c then [] else take 1 (queued c))
   \<and> queued (snd (worker_thread_main_step env c)) =
     (if shutdown_requested c then queued c else drop 1 (queued c))
   \<and> sent_messages (net_log (snd (worker_thread_main_step env c))) =
     sent_messages (net_log c) @
       (if shutdown_requested c \<or> queued c = [] then []
        else if link_ready env c
                \<and> 0 \<le> fst (serialize_append_request (fst (hd (queued c))) (snd (hd (queued c))) 4096)
             then [wire_form (hd (queued c))] else [])
   \<and> shutdown_requested (snd (worker_thread_main_step env c)) = shutdown_requested c"
proof (cases "shutdown_requested c \<or> append_queue c = []")
  case True
  then show ?thesis
    by (auto simp add: worker_thread_main_step_def queued_def split: list.splits)
next
  case False
  then obtain request rest where q: "append_queue c = request # rest"
    by (cases "append_queue c") auto
  let ?c1 = "c\<lparr>append_queue := rest\<rparr>"
  let ?t = "req_timeline_id request"
  let ?r = "req_record request"
  have step: "snd (worker_thread_main_step env c) = snd (append_wal_record env ?c1 ?t ?r)"
    using False q
    by (simp add: worker_thread_main_step_def process_append_request_def Let_def case_prod_beta)
  have ready: "link_ready env ?c1 = link_ready env c"
    by (simp add: link_ready_def)
  have st: "program_state (snd (append_wal_record env ?c1 ?t ?r)) =
            program_state (snd (reconnect_if_needed env ?c1))"
    by (rule append_wal_record_program_state)
  show ?thesis
    unfolding step
    using False q st
    by (simp add: append_wal_record_issued append_wal_record_sent ready queued_def wire_form_def
        program_state_def)
qed

lemma run_pipeline_append:
  "run_pipeline (xs @ ys) c = run_pipeline ys (run_pipeline xs c)"
  by (simp add: run_pipeline_def)

lemma run_pipeline_no_shutdown:
  assumes "Shutdown \<notin> set ops" and "\<not> shutdown_requested c"
  shows "\<not> shutdown_requested (run_pipeline ops c)"
  using assms
proof (induction ops arbitrary: c)
  case Nil
  then show ?case
    by (simp add: run_pipeline_def)
next
  case (Cons x ops)
  have "\<not> shutdown_requested (pipeline_step x c)"
    using Cons.prems worker_step_log
    by (cases x) (simp_all add: append_wal_record_async_def Let_def)
  moreover have "run_pipeline (x # ops) c = run_pipeline ops (pipeline_step x c)"
    by (simp add: run_pipeline_def)
  ultimately show ?case
    using Cons.IH [of "pipeline_step x c"] Cons.prems by simp
qed

lemma workers_drain_queue:
  assumes "\<not> shutdown_requested c" and "length (queued c) \<le> length envs"
  shows "issued_appends (net_log (run_pipeline (map Worker envs) c)) =
           issued_appends (net_log c) @ queued c
       \<and> queued (run_pipeline (map Worker envs) c) = []"
  using assms
proof (induction envs arbitrary: c)
  case Nil
  then show ?case
    by (simp add: run_pipeline_def)
next
  case (Cons e es)
  let ?c1 = "snd (worker_thread_main_step e c)"
  have a: "issued_appends (net_log ?c1) = issued_appends (net_log c) @ take 1 (queued c)"
    and b: "queued ?c1 = drop 1 (queued c)"
    and s: "\<not> shutdown_requested ?c1"
    using worker_step_log [of e c] Cons.prems(1) by simp_all
  have len: "length (queued ?c1) \<le> length es"
    using Cons.prems(2) b by simp
  have "run_pipeline (map Worker (e # es)) c = run_pipeline (map Worker es) ?c1"
    by (simp add: run_pipeline_def)
  then show ?case
    using Cons.IH [OF s len] a b by simp
qed

text \<open>
  C8. Start from a new client and take any sequence of submissions, worker iterations and
  a shutdown request. The appends the worker has issued so far, followed by the requests
  still queued, are the submitted records in submission order; so the issued appends are an
  initial part of the submissions, in the same order: a record submitted before another is
  never appended after it. The messages that reached \<^verbatim>\<open>send\<close> are, in the order sent,
  serialized requests of submitted records in submission order.

  The worker does issue them. One iteration on a client that is not shut down calls
  \<^verbatim>\<open>append_wal_record\<close> for exactly the request at the front of the queue and removes that
  request, and it hands the request's serialized form to \<^verbatim>\<open>send\<close> when the connection is
  usable and the form fits the buffer. Without a shutdown request, once the worker has run
  as many iterations as there are requests queued, every submitted record has been
  appended, in submission order, and the queue is empty.
\<close>

theorem async_appends_in_submission_order:
  "issued_appends (net_log (run_pipeline ops SafekeeperClient_init))
      @ queued (run_pipeline ops SafekeeperClient_init) = submitted ops
   \<and> prefix (issued_appends (net_log (run_pipeline ops SafekeeperClient_init))) (submitted ops)
   \<and> subseq (sent_messages (net_log (run_pipeline ops SafekeeperClient_init)))
        (map wire_form (submitted ops))
   \<and> issued_appends (net_log (snd (worker_thread_main_step env c))) =
        issued_appends (net_log c) @ (if shutdown_requested c then [] else take 1 (queued c))
   \<and> queued (snd (worker_thread_main_step env c)) =
        (if shutdown_requested c then queued c else drop 1 (queued c))
   \<and> sent_messages (net_log (snd (worker_thread_main_step env c))) =
        sent_messages (net_log c) @
          (if shutdown_requested c \<or> queued c = [] then []
           else if link_ready env c
                   \<and> 0 \<le> fst (serialize_append_request (fst (hd (queued c)))
                                 (snd (hd (queued c))) 4096)
                then [wire_form (hd (queued c))] else [])
   \<and> (Shutdown \<notin> set ops
        \<and> length (queued (run_pipeline ops SafekeeperClient_init)) \<le> length envs
      \<longrightarrow> issued_appends
            (net_log (run_pipeline (ops @ map Worker envs) SafekeeperClient_init))
            = submitted ops
          \<and> queued (run_pipeline (ops @ map Worker envs) SafekeeperClient_init) = [])"
proof -
  let ?c = "run_pipeline ops SafekeeperClient_init"
  have eq: "issued_appends (net_log ?c) @ queued ?c = submitted ops"
    using run_pipeline_order [of ops SafekeeperClient_init]
    by (simp add: SafekeeperClient_init_def queued_def)
  then have pre: "prefix (issued_appends (net_log ?c)) (submitted ops)"
    by (metis prefixI)
  have "subseq (sent_messages (net_log ?c)) (map wire_form (issued_appends (net_log ?c)))"
    by (rule run_pipeline_sends) (simp add: SafekeeperClient_init_def)
  moreover have "subseq (map wire_form (issued_appends (net_log ?c)))
                   (map wire_form (submitted ops))"
    using pre by (simp add: prefix_imp_subseq subseq_map)
  ultimately have wire: "subseq (sent_messages (net_log ?c)) (map wire_form (submitted ops))"
    by (rule subseq_order.trans)
  have drain: "issued_appends
            (net_log (run_pipeline (ops @ map Worker envs) SafekeeperClient_init))
            = submitted ops
          \<and> queued (run_pipeline (ops @ map Worker envs) SafekeeperClient_init) = []"
    if no: "Shutdown \<notin> set ops" and len: "length (queued ?c) \<le> length envs"
  proof -
    have "\<not> shutdown_requested SafekeeperClient_init"
      by (simp add: SafekeeperClient_init_def)
    then have "\<not> shutdown_requested ?c"
      using no by (rule run_pipeline_no_shutdown [rotated])
    then show ?thesis
      using workers_drain_queue [of ?c envs] len eq
      by (simp add: run_pipeline_append)
  qed
  show ?thesis
    using eq pre wire worker_step_log [of env c] drain by simp
qed

theorem async_appends_in_submission_order_witness:
  \<open>(let t = \<lparr>tl_id = 7\<rparr>;
        l1 = \<lparr>lsn = 1, wal_length = 1, wal_data = ''a''\<rparr>;
        l2 = \<lparr>lsn = 2, wal_length = 1, wal_data = ''b''\<rparr>;
        l3 = \<lparr>lsn = 3, wal_length = 1, wal_data = ''c''\<rparr>;
        up = \<lparr>socket_ret = 3, inet_pton_ret = 1, connect_ret = 0, send_accepts = Some 4096,
               recv_reply = Some ''ok''\<rparr>;
        ops = [Submit t l1, Submit t l2, Worker up, Submit t l3];
        c = run_pipeline (ops @ map Worker [up, up]) SafekeeperClient_init
    in Shutdown \<notin> set ops
       \<and> length (queued (run_pipeline ops SafekeeperClient_init)) \<le> length [up, up]
       \<and> issued_appends (net_log c) = [(t, l1), (t, l2), (t, l3)] \<and> queued c = []
       \<and> sent_messages (net_log c) =
           [''{"type":"append","timeline_id":7,"lsn":1,"length":1,"data":"a"}'',
            ''{"type":"append","timeline_id":7,"lsn":2,"length":1,"data":"b"}'',
            ''{"type":"append","timeline_id":7,"lsn":3,"length":1,"data":"c"}''])\<close>
proof -
  let ?t = "\<lparr>tl_id = 7\<rparr>"
  let ?l1 = "\<lparr>lsn = 1, wal_length = 1, wal_data = ''a''\<rparr>"
  let ?l2 = "\<lparr>lsn = 2, wal_length = 1, wal_data = ''b''\<rparr>"
  let ?l3 = "\<lparr>lsn = 3, wal_length = 1, wal_data = ''c''\<rparr>"
  let ?up = "\<lparr>socket_ret = 3, inet_pton_ret = 1, connect_ret = 0, send_accepts = Some 4096,
               recv_reply = Some ''ok''\<rparr>"
  let ?ops = "[Submit ?t ?l1, Submit ?t ?l2, Worker ?up, Submit ?t ?l3]"
  have ser: \<open>serialize_append_request ?t ?l1 4096 =
               (63, ''{"type":"append","timeline_id":7,"lsn":1,"length":1,"data":"a"}'')\<close>
    \<open>serialize_append_request ?t ?l2 4096 =
               (63, ''{"type":"append","timeline_id":7,"lsn":2,"length":1,"data":"b"}'')\<close>
    \<open>serialize_append_request ?t ?l3 4096 =
               (63, ''{"type":"append","timeline_id":7,"lsn":3,"length":1,"data":"c"}'')\<close>
    by (simp_all add: serialize_append_request_def Let_def show_nat.simps c_str_def NUL_def)
  have before: "length (queued (run_pipeline ?ops SafekeeperClient_init)) \<le> length [?up, ?up]"
    by (simp add: run_pipeline_def append_wal_record_async_def worker_thread_main_step_def
        process_append_request_def append_wal_record_char reconnect_if_needed_char link_ready_def
        Let_def queued_def SafekeeperClient_init_def ser)
  have sent: \<open>sent_messages (net_log (run_pipeline (?ops @ map Worker [?up, ?up])
                 SafekeeperClient_init)) =
           [''{"type":"append","timeline_id":7,"lsn":1,"length":1,"data":"a"}'',
            ''{"type":"append","timeline_id":7,"lsn":2,"length":1,"data":"b"}'',
            ''{"type":"append","timeline_id":7,"lsn":3,"length":1,"data":"c"}'']\<close>
    by (simp add: run_pipeline_def append_wal_record_async_def worker_thread_main_step_def
        process_append_request_def append_wal_record_char reconnect_if_needed_char link_ready_def
        Let_def queued_def SafekeeperClient_init_def ser)
  show ?thesis
    using async_appends_in_submission_order [of ?ops _ _ "[?up, ?up]"] before sent
    by (simp add: Let_def)
qed

text \<open>
  C10, as the spec states it, fails in its last part: the result of the append can show.
  One record is submitted to a new client and the worker runs one iteration. When the
  service accepts the connection and acknowledges, the request is deleted with result 0
  and the client is left connected; when the service refuses the connection, the request
  is deleted with result -1 and the client is left disconnected. The caller, who got 0
  from the submission both times, reads the difference with \<^verbatim>\<open>is_connected()\<close>.
\<close>

theorem async_result_shows_in_connection_counterexample:
  \<open>(let t = \<lparr>tl_id = 7\<rparr>;
        wal = \<lparr>lsn = 42, wal_length = 3, wal_data = ''abc''\<rparr>;
        up = \<lparr>socket_ret = 3, inet_pton_ret = 1, connect_ret = 0, send_accepts = Some 4096,
               recv_reply = Some ''{"committed_lsn":42}''\<rparr>;
        refused = up\<lparr>connect_ret := - 1\<rparr>;
        c = snd (append_wal_record_async SafekeeperClient_init t wal)
    in fst (append_wal_record_async SafekeeperClient_init t wal) = 0
       \<and> fst (worker_thread_main_step up c) =
           Worker_processed
             \<lparr>req_timeline_id = t, req_record = wal, completed = True, result = 0\<rparr>
       \<and> connected (snd (worker_thread_main_step up c))
       \<and> fst (worker_thread_main_step refused c) =
           Worker_processed
             \<lparr>req_timeline_id = t, req_record = wal, completed = True, result = - 1\<rparr>
       \<and> \<not> connected (snd (worker_thread_main_step refused c)))\<close>
  by (simp add: Let_def worker_thread_main_step_def process_append_request_def
      append_wal_record_async_def SafekeeperClient_init_def append_wal_record_char
      reconnect_if_needed_char link_ready_def serialize_example)

text \<open>
  C10, amended. \<^verbatim>\<open>append_wal_record_async\<close> returns 0 whatever the client, the timeline and
  the record are, and only puts a request, not completed and with result 0, at the end of
  the queue. A worker iteration that finds a request takes it from the front of the queue,
  calls the synchronous append for its timeline and record, stores what that call returns
  in the request, marks it completed and deletes it: the worker computes the result, and
  the only place that holds it is the deleted request. The client is left exactly as the
  reconnect attempt of that append leaves it, with the request gone from the queue; no
  field holds the result. So whether \<^verbatim>\<open>send\<close> and \<^verbatim>\<open>recv\<close> succeed and what the service
  acknowledges never show in the client, while a failed connection does: a client left
  disconnected by the iteration tells that the result was -1.
\<close>

theorem append_wal_record_async_result_discarded:
  "fst (append_wal_record_async c timeline wal) = 0
   \<and> snd (append_wal_record_async c timeline wal) =
       c\<lparr>append_queue := append_queue c @
           [\<lparr>req_timeline_id = timeline, req_record = wal, completed = False, result = 0\<rparr>]\<rparr>
   \<and> fst (worker_thread_main_step env c) =
       (if shutdown_requested c then Worker_exited
        else case append_queue c of
            [] \<Rightarrow> Worker_waiting
          | request # rest \<Rightarrow>
              Worker_processed
                (request\<lparr>result := fst (append_wal_record env (c\<lparr>append_queue := rest\<rparr>)
                                          (req_timeline_id request) (req_record request)),
                         completed := True\<rparr>))
   \<and> issued_appends (net_log (snd (worker_thread_main_step env c))) =
       issued_appends (net_log c) @ (if shutdown_requested c then [] else take 1 (queued c))
   \<and> program_state (snd (worker_thread_main_step env c)) =
       (if shutdown_requested c then program_state c
        else case append_queue c of
            [] \<Rightarrow> program_state c
          | request # rest \<Rightarrow>
              program_state (snd (reconnect_if_needed env (c\<lparr>append_queue := rest\<rparr>))))
   \<and> program_state (snd (worker_thread_main_step (env\<lparr>send_accepts := s, recv_reply := a\<rparr>) c))
       = program_state (snd (worker_thread_main_step env c))
   \<and> (\<forall>request. fst (worker_thread_main_step env c) = Worker_processed request
          \<and> \<not> connected (snd (worker_thread_main_step env c))
        \<longrightarrow> result request = - 1)"
proof -
  have submit: "fst (append_wal_record_async c timeline wal) = 0
    \<and> snd (append_wal_record_async c timeline wal) =
       c\<lparr>append_queue := append_queue c @
           [\<lparr>req_timeline_id = timeline, req_record = wal, completed = False, result = 0\<rparr>]\<rparr>"
    by (simp add: append_wal_record_async_def Let_def)
  have outcome: "fst (worker_thread_main_step env c) =
       (if shutdown_requested c then Worker_exited
        else case append_queue c of
            [] \<Rightarrow> Worker_waiting
          | request # rest \<Rightarrow>
              Worker_processed
                (request\<lparr>result := fst (append_wal_record env (c\<lparr>append_queue := rest\<rparr>)
                                          (req_timeline_id request) (req_record request)),
                         completed := True\<rparr>))"
    by (simp add: worker_thread_main_step_def process_append_request_def Let_def case_prod_beta
        split: list.splits)
  have state: "program_state (snd (worker_thread_main_step env c)) =
       (if shutdown_requested c then program_state c
        else case append_queue c of
            [] \<Rightarrow> program_state c
          | request # rest \<Rightarrow>
              program_state (snd (reconnect_if_needed env (c\<lparr>append_queue := rest\<rparr>))))"
    by (simp add: worker_thread_main_step_def process_append_request_def Let_def case_prod_beta
        append_wal_record_program_state split: list.splits)
  have same: "program_state
        (snd (worker_thread_main_step (env\<lparr>send_accepts := s, recv_reply := a\<rparr>) c))
       = program_state (snd (worker_thread_main_step env c))"
    by (auto simp add: worker_step_program_state reconnect_if_needed_char split: list.splits)
  have shows_failure: "result request = - 1"
    if processed: "fst (worker_thread_main_step env c) = Worker_processed request"
      and off: "\<not> connected (snd (worker_thread_main_step env c))" for request
  proof -
    from processed obtain r rest where q: "append_queue c = r # rest"
      and live: "\<not> shutdown_requested c"
      and req: "request = r\<lparr>result := fst (append_wal_record env (c\<lparr>append_queue := rest\<rparr>)
                                          (req_timeline_id r) (req_record r)),
                         completed := True\<rparr>"
      unfolding outcome by (auto split: if_splits list.splits)
    have "(socket_fd (snd (worker_thread_main_step env c)),
           connected (snd (worker_thread_main_step env c)),
           append_queue (snd (worker_thread_main_step env c)),
           shutdown_requested (snd (worker_thread_main_step env c))) =
          program_state (snd (reconnect_if_needed env (c\<lparr>append_queue := rest\<rparr>)))"
      using state q live by (simp add: program_state_def)
    then have "\<not> connected (snd (reconnect_if_needed env (c\<lparr>append_queue := rest\<rparr>)))"
      using off by (simp add: program_state_def)
    then have "\<not> link_ready env (c\<lparr>append_queue := rest\<rparr>)"
      by (auto simp add: reconnect_if_needed_char link_ready_def split: if_splits)
    then show ?thesis
      using req by (simp add: append_wal_record_status)
  qed
  show ?thesis
    using submit outcome worker_step_log [of env c] state same shows_failure by simp
qed

theorem append_wal_record_async_result_discarded_witness:
  \<open>(let t = \<lparr>tl_id = 7\<rparr>;
        wal = \<lparr>lsn = 42, wal_length = 3, wal_data = ''abc''\<rparr>;
        refused = \<lparr>socket_ret = 3, inet_pton_ret = 1, connect_ret = - 1,
                    send_accepts = Some 4096, recv_reply = Some ''{"committed_lsn":42}''\<rparr>;
        c = snd (append_wal_record_async SafekeeperClient_init t wal)
    in fst (worker_thread_main_step refused c) =
           Worker_processed
             \<lparr>req_timeline_id = t, req_record = wal, completed = True, result = - 1\<rparr>
       \<and> \<not> connected (snd (worker_thread_main_step refused c))
       \<and> result \<lparr>req_timeline_id = t, req_record = wal, completed = True, result = - 1\<rparr> = - 1
       \<and> issued_appends (net_log (snd (worker_thread_main_step refused c))) = [(t, wal)]
       \<and> program_state (snd (worker_thread_main_step refused c)) = (- 1, False, [], False))\<close>
  using append_wal_record_async_result_discarded
    [where c = "snd (append_wal_record_async SafekeeperClient_init \<lparr>tl_id = 7\<rparr>
                \<lparr>lsn = 42, wal_length = 3, wal_data = ''abc''\<rparr>)"
       and timeline = "\<lparr>tl_id = 7\<rparr>"
       and wal = "\<lparr>lsn = 42, wal_length = 3, wal_data = ''abc''\<rparr>"
       and env = \<open>\<lparr>socket_ret = 3, inet_pton_ret = 1, connect_ret = - 1,
          send_accepts = Some 4096, recv_reply = Some ''{"committed_lsn":42}''\<rparr>\<close>
       and s = "None" and a = "None"]
  by (simp add: Let_def append_wal_record_status serialize_example link_ready_def
      SafekeeperClient_init_def append_wal_record_async_def reconnect_if_needed_char
      program_state_def queued_def)

section \<open>The connection pool: acquire and release\<close>

lemma create_pageserver_connection_id [simp]: "create_pageserver_connection fresh = fresh"
  by (simp add: create_pageserver_connection_def is_connection_healthy_def split: option.splits)

lemma create_safekeeper_connection_id [simp]: "create_safekeeper_connection fresh = fresh"
  by (simp add: create_safekeeper_connection_def is_connection_healthy_def split: option.splits)

lemma get_pageserver_connection_char:
  "get_pageserver_connection fresh p =
     (if available_pageserver_connections p \<noteq> [] then
        (Some (hd (available_pageserver_connections p)),
         p\<lparr>pageserver_requests := pageserver_requests p + 1,
           available_pageserver_connections := tl (available_pageserver_connections p),
           pageserver_cache_hits := pageserver_cache_hits p + 1\<rparr>)
      else if length (all_pageserver_connections p) < max_pageserver_connections p then
        (fresh,
         p\<lparr>pageserver_requests := pageserver_requests p + 1,
           all_pageserver_connections :=
             all_pageserver_connections p @ (case fresh of None \<Rightarrow> [] | Some c \<Rightarrow> [c])\<rparr>)
      else (None, p\<lparr>pageserver_requests := pageserver_requests p + 1\<rparr>))"
  by (simp add: get_pageserver_connection_def Let_def split: option.splits)

lemma get_safekeeper_connection_char:
  "get_safekeeper_connection fresh p =
     (if available_safekeeper_connections p \<noteq> [] then
        (Some (hd (available_safekeeper_connections p)),
         p\<lparr>safekeeper_requests := safekeeper_requests p + 1,
           available_safekeeper_connections := tl (available_safekeeper_connections p),
           safekeeper_cache_hits := safekeeper_cache_hits p + 1\<rparr>)
      else if length (all_safekeeper_connections p) < max_safekeeper_connections p then
        (fresh,
         p\<lparr>safekeeper_requests := safekeeper_requests p + 1,
           all_safekeeper_connections :=
             all_safekeeper_connections p @ (case fresh of None \<Rightarrow> [] | Some c \<Rightarrow> [c])\<rparr>)
      else (None, p\<lparr>safekeeper_requests := safekeeper_requests p + 1\<rparr>))"
  by (simp add: get_safekeeper_connection_def Let_def split: option.splits)

lemma warm_connections_char:
  "warm_connections fresh_ps fresh_sk p =
     (let ps = all_pageserver_connections p @ available_pageserver_connections p
                @ List.map_filter id (take (min_pageserver_connections p) fresh_ps);
          sk = all_safekeeper_connections p
                @ List.map_filter id (take (min_safekeeper_connections p) fresh_sk)
      in p\<lparr>available_pageserver_connections := ps, all_pageserver_connections := ps,
           all_safekeeper_connections := sk,
           available_safekeeper_connections := available_safekeeper_connections p @ sk\<rparr>)"
proof -
  have a: "create_pageserver_connection = id"
    by (rule ext) simp
  have b: "create_safekeeper_connection = id"
    by (rule ext) simp
  show ?thesis
    by (simp add: warm_connections_def Let_def a b)
qed

lemma return_pageserver_connection_char:
  "return_pageserver_connection (Some c) p =
     (if c \<in> set (all_pageserver_connections p) then
        p\<lparr>available_pageserver_connections := available_pageserver_connections p @ [c],
          all_pageserver_connections := remove1 c (all_pageserver_connections p)\<rparr>
      else p)"
  by (simp add: return_pageserver_connection_def)

lemma return_safekeeper_connection_char:
  "return_safekeeper_connection (Some c) p =
     (if c \<in> set (all_safekeeper_connections p) then
        p\<lparr>available_safekeeper_connections := available_safekeeper_connections p @ [c],
          all_safekeeper_connections := remove1 c (all_safekeeper_connections p)\<rparr>
      else p)"
  by (simp add: return_safekeeper_connection_def)

text \<open>
  The plugin's pool after its two warm-ups: ten page clients in fifteen entries of the
  queue and of the managed list (the first five are carried over and listed twice), six
  log clients in the managed list and nine entries in their queue.
\<close>

lemma warmed_pool_lists:
  "available_pageserver_connections warmed_pool =
     [1, 2, 3, 4, 5, 1, 2, 3, 4, 5, 6, 7, 8, 9, 10]"
  "all_pageserver_connections warmed_pool = [1, 2, 3, 4, 5, 1, 2, 3, 4, 5, 6, 7, 8, 9, 10]"
  "available_safekeeper_connections warmed_pool = [11, 12, 13, 11, 12, 13, 14, 15, 16]"
  "all_safekeeper_connections warmed_pool = [11, 12, 13, 14, 15, 16]"
  "max_pageserver_connections warmed_pool = 20"
  "max_safekeeper_connections warmed_pool = 10"
  "pageserver_requests warmed_pool = 0"
  "pageserver_cache_hits warmed_pool = 0"
  "safekeeper_requests warmed_pool = 0"
  "safekeeper_cache_hits warmed_pool = 0"
  by (simp_all add: warmed_pool_def warm_connections_char global_connection_pool_init_def
      ConnectionPool_init_def List.map_filter_def Let_def)

lemma single_pool_lists:
  "available_pageserver_connections single_pool = [1]"
  "all_pageserver_connections single_pool = [1]"
  "available_safekeeper_connections single_pool = [11]"
  "all_safekeeper_connections single_pool = [11]"
  "max_pageserver_connections single_pool = 1"
  "max_safekeeper_connections single_pool = 1"
  "pageserver_requests single_pool = 0"
  "pageserver_cache_hits single_pool = 0"
  "safekeeper_requests single_pool = 0"
  "safekeeper_cache_hits single_pool = 0"
  by (simp_all add: single_pool_def warm_connections_char ConnectionPool_init_def
      List.map_filter_def Let_def)

text \<open>
  C6. The code breaks the claim where it creates a connection: its test for "below the
  maximum" counts the entries of \<^verbatim>\<open>all_*_connections\<close>, and a release erases the released
  connection's entry from that list, which a later hit never restores. On a pool with
  maximum 1 for each kind, warmed with one connection: the connection is acquired,
  released and acquired again, so it is in use and the count of connections of its kind
  has reached the maximum; the managed list is empty all the same, and the next acquire,
  which finds the queue empty, creates and returns a second connection. The caller who
  holds the first connection then releases it, and that release is dropped: the pool no
  longer knows the connection. The same holds of both kinds.
\<close>

theorem pool_creates_beyond_maximum:
  "(let first = get_pageserver_connection None single_pool;
        released = return_pageserver_connection (fst first) (snd first);
        second = get_pageserver_connection None released;
        third = get_pageserver_connection (Some 2) (snd second)
    in max_pageserver_connections single_pool = 1
       \<and> fst first = Some 1
       \<and> all_pageserver_connections (snd first) = [1]
       \<and> available_pageserver_connections released = [1]
       \<and> all_pageserver_connections released = []
       \<and> fst second = Some 1
       \<and> available_pageserver_connections (snd second) = []
       \<and> all_pageserver_connections (snd second) = []
       \<and> fst third = Some 2
       \<and> all_pageserver_connections (snd third) = [2]
       \<and> pageserver_requests (snd third) = 3
       \<and> pageserver_cache_hits (snd third) = 2
       \<and> return_pageserver_connection (Some 1) (snd second) = snd second)
   \<and> (let first = get_safekeeper_connection None single_pool;
        released = return_safekeeper_connection (fst first) (snd first);
        second = get_safekeeper_connection None released;
        third = get_safekeeper_connection (Some 12) (snd second)
    in max_safekeeper_connections single_pool = 1
       \<and> fst first = Some 11
       \<and> all_safekeeper_connections (snd first) = [11]
       \<and> available_safekeeper_connections released = [11]
       \<and> all_safekeeper_connections released = []
       \<and> fst second = Some 11
       \<and> available_safekeeper_connections (snd second) = []
       \<and> all_safekeeper_connections (snd second) = []
       \<and> fst third = Some 12
       \<and> all_safekeeper_connections (snd third) = [12]
       \<and> safekeeper_requests (snd third) = 3
       \<and> safekeeper_cache_hits (snd third) = 2
       \<and> return_safekeeper_connection (Some 11) (snd second) = snd second)"
  by (simp add: Let_def get_pageserver_connection_char get_safekeeper_connection_char
      return_pageserver_connection_char return_safekeeper_connection_char single_pool_lists)

text \<open>
  C7, as the spec states it, fails: on the warmed pool of the plugin, with nobody else
  using it, the first acquire of a page connection returns connection 1, and after its
  release the next acquire returns connection 2; for the log connections the first
  acquire returns 11 and the one after the release 12.
\<close>

theorem released_connection_not_next_counterexample:
  "(let first = get_pageserver_connection None warmed_pool;
        released = return_pageserver_connection (fst first) (snd first);
        second = get_pageserver_connection None released
    in fst first = Some 1 \<and> fst second = Some 2)
   \<and> (let first = get_safekeeper_connection None warmed_pool;
        released = return_safekeeper_connection (fst first) (snd first);
        second = get_safekeeper_connection None released
    in fst first = Some 11 \<and> fst second = Some 12)"
  by (simp add: Let_def get_pageserver_connection_char get_safekeeper_connection_char
      return_pageserver_connection_char return_safekeeper_connection_char warmed_pool_lists)

text \<open>
  C7, amended. The queue of available connections is first in, first out. For a
  connection of either kind that was acquired and that the pool still holds in its
  managed list (as it does on the connection's first lease), the release puts it at the
  end of the queue, and the next acquire of that kind, with nothing else touching the pool
  in between, returns the connection at the front of the queue, which is the released one
  when no other connection is queued. That acquire is a hit: it creates no connection.

  A release erases the connection's entry from the managed list, so a later release of the
  same connection is not of this form: the pool drops it (see C6). Nothing is stated
  about such a release here.
\<close>

theorem released_connection_reused_from_queue_front:
  "(get_pageserver_connection fresh p = (Some c, p1)
      \<and> c \<in> set (all_pageserver_connections p1)
    \<longrightarrow> available_pageserver_connections (return_pageserver_connection (Some c) p1) =
          available_pageserver_connections p1 @ [c]
        \<and> fst (get_pageserver_connection fresh' (return_pageserver_connection (Some c) p1)) =
          Some (hd (available_pageserver_connections p1 @ [c]))
        \<and> (available_pageserver_connections p1 = []
            \<longrightarrow> fst (get_pageserver_connection fresh'
                       (return_pageserver_connection (Some c) p1)) = Some c)
        \<and> all_pageserver_connections
            (snd (get_pageserver_connection fresh' (return_pageserver_connection (Some c) p1))) =
          remove1 c (all_pageserver_connections p1)
        \<and> pageserver_cache_hits
            (snd (get_pageserver_connection fresh' (return_pageserver_connection (Some c) p1))) =
          pageserver_cache_hits p1 + 1)
   \<and> (get_safekeeper_connection fresh p = (Some k, q1)
      \<and> k \<in> set (all_safekeeper_connections q1)
    \<longrightarrow> available_safekeeper_connections (return_safekeeper_connection (Some k) q1) =
          available_safekeeper_connections q1 @ [k]
        \<and> fst (get_safekeeper_connection fresh' (return_safekeeper_connection (Some k) q1)) =
          Some (hd (available_safekeeper_connections q1 @ [k]))
        \<and> (available_safekeeper_connections q1 = []
            \<longrightarrow> fst (get_safekeeper_connection fresh'
                       (return_safekeeper_connection (Some k) q1)) = Some k)
        \<and> all_safekeeper_connections
            (snd (get_safekeeper_connection fresh' (return_safekeeper_connection (Some k) q1))) =
          remove1 k (all_safekeeper_connections q1)
        \<and> safekeeper_cache_hits
            (snd (get_safekeeper_connection fresh' (return_safekeeper_connection (Some k) q1))) =
          safekeeper_cache_hits q1 + 1)"
  by (simp add: get_pageserver_connection_char get_safekeeper_connection_char
      return_pageserver_connection_char return_safekeeper_connection_char)

theorem released_connection_reused_from_queue_front_witness:
  "(let first = get_pageserver_connection None warmed_pool;
        released = return_pageserver_connection (Some 1) (snd first);
        second = get_pageserver_connection (Some 20) released
    in first = (Some 1, snd first) \<and> 1 \<in> set (all_pageserver_connections (snd first))
       \<and> available_pageserver_connections released =
           [2, 3, 4, 5, 1, 2, 3, 4, 5, 6, 7, 8, 9, 10, 1]
       \<and> fst second = Some 2
       \<and> all_pageserver_connections (snd second) =
           [2, 3, 4, 5, 1, 2, 3, 4, 5, 6, 7, 8, 9, 10]
       \<and> pageserver_cache_hits (snd second) = 2)
   \<and> (let first = get_safekeeper_connection None warmed_pool;
        released = return_safekeeper_connection (Some 11) (snd first);
        second = get_safekeeper_connection (Some 20) released
    in first = (Some 11, snd first) \<and> 11 \<in> set (all_safekeeper_connections (snd first))
       \<and> available_safekeeper_connections released =
           [12, 13, 11, 12, 13, 14, 15, 16, 11]
       \<and> fst second = Some 12
       \<and> all_safekeeper_connections (snd second) = [12, 13, 14, 15, 16]
       \<and> safekeeper_cache_hits (snd second) = 2)"
  using released_connection_reused_from_queue_front
    [where fresh = None and p = warmed_pool and c = 1
       and ?p1.0 = "snd (get_pageserver_connection None warmed_pool)"
       and k = 11 and ?q1.0 = "snd (get_safekeeper_connection None warmed_pool)"
       and fresh' = "Some 20"]
  by (simp add: Let_def get_pageserver_connection_char get_safekeeper_connection_char
      return_pageserver_connection_char return_safekeeper_connection_char warmed_pool_lists)

section \<open>The page cache: eviction and write-back\<close>

lemma write_page_to_safekeeper_fields:
  "writebacks (snd (write_page_to_safekeeper sk pid d h)) = writebacks h @ [(pid, d)]"
  "page_cache (snd (write_page_to_safekeeper sk pid d h)) = page_cache h"
  "lru_list (snd (write_page_to_safekeeper sk pid d h)) = lru_list h"
  "appends (snd (write_page_to_safekeeper sk pid d h)) =
     appends h @ (case sk (length (writebacks h)) of
                    None \<Rightarrow> []
                  | Some lease \<Rightarrow>
                      [(current_timeline h,
                        \<lparr>lsn = current_lsn h, wal_length = 16384, wal_data = d\<rparr>)])"
  by (simp_all add: write_page_to_safekeeper_def Let_def MARIADB_PAGE_SIZE_def
      split: option.splits prod.splits)

lemma evict_present:
  assumes "map_of (page_cache h) key = Some page"
  shows "page_cache (evict_page_from_cache sk key h) = AList.delete key (page_cache h)"
    and "lru_list (evict_page_from_cache sk key h) = removeAll key (lru_list h)"
  using assms
  by (simp_all add: evict_page_from_cache_def Let_def write_page_to_safekeeper_fields)

lemma evict_dirty:
  assumes "map_of (page_cache h) key = Some page" and "dirty page"
  shows "evict_page_from_cache sk key h =
    (snd (write_page_to_safekeeper sk (page_id page) (page_data page) h))
      \<lparr>page_cache := AList.delete key (page_cache h), lru_list := removeAll key (lru_list h)\<rparr>"
  using assms
  by (simp add: evict_page_from_cache_def Let_def write_page_to_safekeeper_fields)

lemma evict_clean:
  assumes "map_of (page_cache h) key = Some page" and "\<not> dirty page"
  shows "evict_page_from_cache sk key h =
    h\<lparr>page_cache := AList.delete key (page_cache h), lru_list := removeAll key (lru_list h)\<rparr>"
  using assms
  by (simp add: evict_page_from_cache_def Let_def)

lemma close_pass:
  "writebacks (fold (\<lambda>entry h'. if dirty (snd entry)
                then snd (write_page_to_safekeeper sk (page_id (snd entry))
                            (page_data (snd entry)) h')
                else h') entries h)
     = writebacks h @ map (\<lambda>e. (page_id (snd e), page_data (snd e)))
                        (filter (\<lambda>e. dirty (snd e)) entries)
   \<and> page_cache (fold (\<lambda>entry h'. if dirty (snd entry)
                then snd (write_page_to_safekeeper sk (page_id (snd entry))
                            (page_data (snd entry)) h')
                else h') entries h) = page_cache h"
  by (induction entries arbitrary: h) (simp_all add: write_page_to_safekeeper_fields)

section \<open>The page cache: capacity and choice of the evicted page\<close>

lemma update_absent: "map_of al k = None \<Longrightarrow> AList.update k v al = al @ [(k, v)]"
  by (induction al) (auto split: if_splits)

lemma length_update_present:
  "map_of al k = Some p \<Longrightarrow> length (AList.update k v al) = length al"
  by (induction al) (auto split: if_splits)

lemma length_delete_present:
  assumes "distinct (map fst al)" and "k \<in> set (map fst al)"
  shows "length (AList.delete k al) = length al - 1"
proof -
  have "length (AList.delete k al) = length (map fst (AList.delete k al))"
    by simp
  also have "\<dots> = length (removeAll k (map fst al))"
    by (simp only: AList.delete_keys)
  also have "\<dots> = length (remove1 k (map fst al))"
    using assms(1) by (simp add: distinct_remove1_removeAll)
  also have "\<dots> = length al - 1"
    using assms(2) by (simp add: length_remove1)
  finally show ?thesis .
qed

lemma read_step_cases:
  "snd (snd (read_page_from_cache_or_pageserver now ps sk pid buffer h)) =
     (case map_of (page_cache h) (page_key pid) of
        Some page \<Rightarrow>
          h\<lparr>page_cache := AList.update (page_key pid) (page\<lparr>last_access := now\<rparr>) (page_cache h)\<rparr>
      | None \<Rightarrow>
          let h1 = h\<lparr>network_calls := network_calls h + 1\<rparr>
          in case ps of
               None \<Rightarrow> h1
             | Some lease \<Rightarrow>
                 if fst (read_page (fst lease) (snd lease) pid buffer MARIADB_PAGE_SIZE) = 0 then
                   let h2 = (if length (page_cache h1) \<ge> MAX_CACHED_PAGES
                             then evict_page_from_cache sk (last (lru_list h1)) h1 else h1);
                       new_page = (CachedPage_init pid)
                         \<lparr>page_data := take MARIADB_PAGE_SIZE
                              (snd (read_page (fst lease) (snd lease) pid buffer MARIADB_PAGE_SIZE)),
                           last_access := now\<rparr>
                   in h2\<lparr>page_cache := AList.update (page_key pid) new_page (page_cache h2),
                        lru_list := page_key pid # lru_list h2\<rparr>
                 else h1)"
  by (simp add: read_page_from_cache_or_pageserver_def Let_def case_prod_beta
      split: option.splits)

text \<open>
  An insertion keeps the shape of the cache: with room left the new entry is added; at
  capacity the key at the back of \<^verbatim>\<open>lru_list\<close> is cached, its entry is removed, and the new
  entry takes its place.
\<close>

lemma insert_keeps_inv:
  assumes inv: "cache_inv h" and miss: "map_of (page_cache h) key = None"
  shows "cache_inv
     ((if length (page_cache h) \<ge> MAX_CACHED_PAGES
       then evict_page_from_cache sk (last (lru_list h)) h else h)
      \<lparr>page_cache := AList.update key new_page
          (page_cache (if length (page_cache h) \<ge> MAX_CACHED_PAGES
                       then evict_page_from_cache sk (last (lru_list h)) h else h)),
        lru_list := key # lru_list (if length (page_cache h) \<ge> MAX_CACHED_PAGES
                       then evict_page_from_cache sk (last (lru_list h)) h else h)\<rparr>)"
proof (cases "length (page_cache h) \<ge> MAX_CACHED_PAGES")
  case False
  have notin: "key \<notin> set (map fst (page_cache h))"
    using miss by (simp add: map_of_eq_None_iff)
  show ?thesis
    using False inv notin
    by (simp add: cache_inv_def update_absent [OF miss])
next
  case True
  let ?k0 = "last (lru_list h)"
  have nonempty: "page_cache h \<noteq> []"
    using True by (auto simp add: MAX_CACHED_PAGES_def)
  then have "lru_list h \<noteq> []"
    using inv by (auto simp add: cache_inv_def)
  then have k0: "?k0 \<in> set (map fst (page_cache h))"
    using inv last_in_set [of "lru_list h"] by (simp add: cache_inv_def)
  then obtain page where victim: "map_of (page_cache h) ?k0 = Some page"
    by (metis map_of_eq_None_iff not_Some_eq set_map)
  have notin: "key \<notin> set (map fst (page_cache h))"
    using miss by (simp add: map_of_eq_None_iff)
  have miss': "map_of (AList.delete ?k0 (page_cache h)) key = None"
    using miss by (simp add: AList.delete_conv')
  have len: "length (AList.delete ?k0 (page_cache h)) = length (page_cache h) - 1"
    using inv k0 by (simp add: cache_inv_def length_delete_present)
  have pos: "0 < length (page_cache h)"
    using nonempty by simp
  show ?thesis
    using True inv notin len pos
    by (auto simp add: cache_inv_def evict_present [OF victim] update_absent [OF miss']
        AList.delete_keys distinct_removeAll)
qed

lemma read_step_inv:
  assumes "cache_inv h"
  shows "cache_inv (snd (snd (read_page_from_cache_or_pageserver now ps sk pid buffer h)))"
proof (cases "map_of (page_cache h) (page_key pid)")
  case (Some page)
  then have "page_key pid \<in> set (map fst (page_cache h))"
    by (metis map_of_eq_None_iff option.distinct(1) set_map)
  then show ?thesis
    using assms Some
    by (simp add: read_step_cases cache_inv_def AList.update_keys length_update_present)
next
  case None
  let ?h1 = "h\<lparr>network_calls := network_calls h + 1\<rparr>"
  let ?h2 = "if length (page_cache ?h1) \<ge> MAX_CACHED_PAGES
             then evict_page_from_cache sk (last (lru_list ?h1)) ?h1 else ?h1"
  have inv1: "cache_inv ?h1"
    using assms by (simp add: cache_inv_def)
  have miss1: "map_of (page_cache ?h1) (page_key pid) = None"
    using None by simp
  show ?thesis
  proof (cases ps)
    case no_client: None
    then show ?thesis
      using inv1 None by (simp add: read_step_cases)
  next
    case (Some lease)
    show ?thesis
    proof (cases "fst (read_page (fst lease) (snd lease) pid buffer MARIADB_PAGE_SIZE) = 0")
      case False
      then show ?thesis
        using inv1 None Some by (simp add: read_step_cases)
    next
      case True
      have eq: "snd (snd (read_page_from_cache_or_pageserver now ps sk pid buffer h)) =
            ?h2\<lparr>page_cache := AList.update (page_key pid)
                    ((CachedPage_init pid)
                       \<lparr>page_data := take MARIADB_PAGE_SIZE
                            (snd (read_page (fst lease) (snd lease) pid buffer MARIADB_PAGE_SIZE)),
                        last_access := now\<rparr>)
                    (page_cache ?h2),
                 lru_list := page_key pid # lru_list ?h2\<rparr>"
        using None Some True by (simp add: read_step_cases Let_def)
      show ?thesis
        unfolding eq by (rule insert_keeps_inv [OF inv1 miss1])
    qed
  qed
qed

lemma read_pages_inv:
  "cache_inv h \<Longrightarrow> cache_inv (read_pages sk reads h)"
  by (induction sk reads h rule: read_pages.induct) (simp_all add: read_step_inv)

text \<open>
  The first part of C1 holds: after any run of reads on a new handler the cache holds at
  most \<open>MAX_CACHED_PAGES\<close> entries (and \<^verbatim>\<open>lru_list.back()\<close> is only taken of a list that is
  not empty).
\<close>

lemma cache_never_exceeds_capacity:
  "length (page_cache (read_pages sk reads ha_serverless_init)) \<le> MAX_CACHED_PAGES"
proof -
  have "cache_inv ha_serverless_init"
    by (simp add: cache_inv_def ha_serverless_init_def)
  then have "cache_inv (read_pages sk reads ha_serverless_init)"
    by (rule read_pages_inv)
  then show ?thesis
    by (simp add: cache_inv_def)
qed

lemma read_pages_append:
  "read_pages sk (xs @ ys) h = read_pages sk ys (read_pages sk xs h)"
  by (induction sk xs h rule: read_pages.induct) simp_all

lemma read_page_example:
  "read_page example_client zero_page_service pid zero_page MARIADB_PAGE_SIZE = (0, zero_page)"
  by (simp add: read_page_char example_client_def zero_page_service_def zero_page_def
      MARIADB_PAGE_SIZE_def Let_def)

lemma page_key_small:
  assumes "i < 2 ^ 32"
  shows "page_key \<lparr>timeline_id = 0, page_number = of_nat i\<rparr> = of_nat i"
proof -
  have "(ucast (of_nat i :: u32) :: u64) = of_nat (take_bit 32 i)"
    by (simp add: unsigned_of_nat)
  also have "take_bit 32 i = i"
    using assms by (simp add: take_bit_nat_eq_self)
  finally show ?thesis
    by (simp add: page_key_def)
qed

lemma of_nat_u64_eq:
  assumes "i < 2 ^ 64" and "j < 2 ^ 64"
  shows "((of_nat i :: u64) = of_nat j) = (i = j)"
  using assms by (simp add: word_of_nat_eq_iff take_bit_nat_eq_self)

lemma map_of_range:
  assumes "n \<le> 2 ^ 64" and "j < 2 ^ 64"
  shows "map_of (map (\<lambda>i. (of_nat i :: u64, g i)) [0..<n]) (of_nat j) =
           (if j < n then Some (g j) else None)"
  using assms
proof (induction n)
  case 0
  then show ?case by simp
next
  case (Suc n)
  then show ?case
    by (auto simp add: map_add_def of_nat_u64_eq less_Suc_eq split: option.splits)
qed

lemma hit_step:
  assumes "map_of (page_cache h) (page_key pid) = Some page"
  shows "snd (snd (read_page_from_cache_or_pageserver now ps sk pid buffer h)) =
         h\<lparr>page_cache := AList.update (page_key pid) (page\<lparr>last_access := now\<rparr>) (page_cache h)\<rparr>"
  using assms by (simp add: read_page_from_cache_or_pageserver_def Let_def)

lemma miss_insert_step:
  assumes miss: "map_of (page_cache h) (page_key pid) = None"
    and room: "length (page_cache h) < MAX_CACHED_PAGES"
  shows "snd (snd (read_page_from_cache_or_pageserver now (Some (example_client, zero_page_service))
                     sk pid zero_page h)) =
         h\<lparr>network_calls := network_calls h + 1,
           page_cache := page_cache h @
             [(page_key pid, (CachedPage_init pid)\<lparr>page_data := zero_page, last_access := now\<rparr>)],
           lru_list := page_key pid # lru_list h\<rparr>"
proof -
  have tk: "take MARIADB_PAGE_SIZE zero_page = zero_page"
    by (simp add: MARIADB_PAGE_SIZE_def zero_page_def)
  show ?thesis
    using miss room
    by (simp add: read_page_from_cache_or_pageserver_def Let_def read_page_example tk
        update_absent)
qed

lemma miss_full_step:
  assumes miss: "map_of (page_cache h) (page_key pid) = None"
    and full: "MAX_CACHED_PAGES \<le> length (page_cache h)"
    and victim: "map_of (page_cache h) (last (lru_list h)) = Some page"
    and clean: "\<not> dirty page"
  shows "snd (snd (read_page_from_cache_or_pageserver now (Some (example_client, zero_page_service))
                     sk pid zero_page h)) =
         h\<lparr>network_calls := network_calls h + 1,
           page_cache := AList.update (page_key pid)
                ((CachedPage_init pid)\<lparr>page_data := zero_page, last_access := now\<rparr>)
                (AList.delete (last (lru_list h)) (page_cache h)),
           lru_list := page_key pid # removeAll (last (lru_list h)) (lru_list h)\<rparr>"
proof -
  have tk: "take MARIADB_PAGE_SIZE zero_page = zero_page"
    by (simp add: MARIADB_PAGE_SIZE_def zero_page_def)
  let ?h1 = "h\<lparr>network_calls := network_calls h + 1\<rparr>"
  have ev: "evict_page_from_cache sk (last (lru_list h)) ?h1 =
        ?h1\<lparr>page_cache := AList.delete (last (lru_list h)) (page_cache h),
             lru_list := removeAll (last (lru_list h)) (lru_list h)\<rparr>"
    using evict_clean [of ?h1 "last (lru_list h)" page sk] victim clean by simp
  show ?thesis
    using miss full
    by (simp add: read_page_from_cache_or_pageserver_def Let_def read_page_example tk ev)
qed

text \<open>The cache after the first \<open>n\<close> reads of \<open>fill_cache\<close>.\<close>

lemma fill_state:
  assumes "n \<le> 1024"
  shows "read_pages sk (map (\<lambda>i. read_of i (int i + 1)) [0..<n]) ha_serverless_init =
         ha_serverless_init
           \<lparr>network_calls := of_nat n,
            page_cache := map (\<lambda>i. (of_nat i,
                (CachedPage_init \<lparr>timeline_id = 0, page_number = of_nat i\<rparr>)
                  \<lparr>page_data := zero_page, last_access := int i + 1\<rparr>)) [0..<n],
            lru_list := rev (map of_nat [0..<n])\<rparr>"
  using assms
proof (induction n)
  case 0
  then show ?case
    by (simp add: ha_serverless_init_def)
next
  case (Suc n)
  let ?h = "ha_serverless_init
           \<lparr>network_calls := of_nat n,
            page_cache := map (\<lambda>i. (of_nat i,
                (CachedPage_init \<lparr>timeline_id = 0, page_number = of_nat i\<rparr>)
                  \<lparr>page_data := zero_page, last_access := int i + 1\<rparr>)) [0..<n],
            lru_list := rev (map of_nat [0..<n])\<rparr>"
  have n: "n < 1024"
    using Suc.prems by simp
  have key: "page_key \<lparr>timeline_id = 0, page_number = of_nat n\<rparr> = of_nat n"
    using n by (simp add: page_key_small)
  have miss: "map_of (page_cache ?h) (page_key \<lparr>timeline_id = 0, page_number = of_nat n\<rparr>) = None"
    using n by (simp add: key map_of_range)
  have room: "length (page_cache ?h) < MAX_CACHED_PAGES"
    using n by (simp add: MAX_CACHED_PAGES_def)
  have "read_pages sk (map (\<lambda>i. read_of i (int i + 1)) [0..<Suc n]) ha_serverless_init =
        read_pages sk [read_of n (int n + 1)] ?h"
    using Suc.IH n by (simp add: read_pages_append)
  also have "\<dots> = snd (snd (read_page_from_cache_or_pageserver (int n + 1)
                     (Some (example_client, zero_page_service)) sk
                     \<lparr>timeline_id = 0, page_number = of_nat n\<rparr> zero_page ?h))"
    by (simp add: read_of_def)
  also have "\<dots> = ?h\<lparr>network_calls := network_calls ?h + 1,
           page_cache := page_cache ?h @
             [(page_key \<lparr>timeline_id = 0, page_number = of_nat n\<rparr>,
               (CachedPage_init \<lparr>timeline_id = 0, page_number = of_nat n\<rparr>)
                 \<lparr>page_data := zero_page, last_access := int n + 1\<rparr>)],
           lru_list := page_key \<lparr>timeline_id = 0, page_number = of_nat n\<rparr> # lru_list ?h\<rparr>"
    by (rule miss_insert_step [OF miss room])
  finally show ?case
    by (simp add: key)
qed

text \<open>
  C1, the choice of the evicted page, on a concrete run. A new handler reads the pages 0
  to 1023 of one timeline at the times 1 to 1024, which fills the cache; it reads page 0
  again at time 2000, a hit that sets the page's \<open>last_access\<close> to 2000; then it reads page
  1024 at time 2001. Before that last read the cache is at capacity, page 0 has the newest
  \<open>last_access\<close> (2000) and page 1 the oldest (2). The last read evicts page 0 and keeps
  page 1: the evicted entry is the one inserted first, not the one with the oldest
  \<open>last_access\<close>.
\<close>

theorem eviction_follows_insertion_order:
  "(let h1 = read_pages no_log_client (fill_cache @ [read_of 0 2000]) ha_serverless_init;
        h2 = read_pages no_log_client [read_of 1024 2001] h1
    in length (page_cache h1) = MAX_CACHED_PAGES
       \<and> map_option last_access (map_of (page_cache h1) 0) = Some 2000
       \<and> map_option last_access (map_of (page_cache h1) 1) = Some 2
       \<and> map_of (page_cache h2) 0 = None
       \<and> map_option last_access (map_of (page_cache h2) 1) = Some 2
       \<and> map_option last_access (map_of (page_cache h2) 1024) = Some 2001)"
proof -
  define g where "g = (\<lambda>i. (CachedPage_init \<lparr>timeline_id = 0, page_number = of_nat i\<rparr>)
                  \<lparr>page_data := zero_page, last_access := int i + 1\<rparr>)"
  define C where "C = map (\<lambda>i. (of_nat i :: u64, g i)) [0..<1024]"
  define L where "L = rev (map (of_nat :: nat \<Rightarrow> u64) [0..<1024])"
  define h0 where "h0 = ha_serverless_init\<lparr>network_calls := 1024, page_cache := C, lru_list := L\<rparr>"
  have C0: "map_of C 0 = Some (g 0)"
    using map_of_range [of 1024 0 g] by (simp add: C_def)
  have C1: "map_of C 1 = Some (g 1)"
    using map_of_range [of 1024 1 g] by (simp add: C_def)
  have C1024: "map_of C 1024 = None"
    using map_of_range [of 1024 1024 g] by (simp add: C_def)
  have lenC: "length C = 1024"
    by (simp add: C_def)
  have lastL: "last L = 0"
    by (simp add: L_def last_rev hd_map)
  have filled: "read_pages no_log_client fill_cache ha_serverless_init = h0"
    using fill_state [of 1024 no_log_client] by (simp add: fill_cache_def C_def g_def L_def h0_def)
  have k0: "page_key \<lparr>timeline_id = 0, page_number = 0\<rparr> = 0"
    using page_key_small [of 0] by simp
  have k1024: "page_key \<lparr>timeline_id = 0, page_number = 1024\<rparr> = 1024"
    using page_key_small [of 1024] by simp
  define C' where "C' = AList.update 0 ((g 0)\<lparr>last_access := 2000\<rparr>) C"
  define h1 where "h1 = h0\<lparr>page_cache := C'\<rparr>"
  have step1: "read_pages no_log_client (fill_cache @ [read_of 0 2000]) ha_serverless_init = h1"
    using hit_step [of h0 "\<lparr>timeline_id = 0, page_number = 0\<rparr>" "g 0" 2000] C0
    by (simp add: read_pages_append filled read_of_def k0 h0_def h1_def C'_def)
  have len1: "length (page_cache h1) = MAX_CACHED_PAGES"
    using C0 by (simp add: h1_def C'_def length_update_present lenC MAX_CACHED_PAGES_def)
  have m1: "map_of (page_cache h1) = (map_of C)(0 \<mapsto> (g 0)\<lparr>last_access := 2000\<rparr>)"
    by (simp add: h1_def C'_def AList.update_conv')
  have victim_key: "last (lru_list h1) = 0"
    by (simp add: h1_def h0_def lastL)
  have victim: "map_of (page_cache h1) (last (lru_list h1)) = Some ((g 0)\<lparr>last_access := 2000\<rparr>)"
    by (simp add: m1 victim_key)
  have clean: "\<not> dirty ((g 0)\<lparr>last_access := 2000\<rparr>)"
    by (simp add: g_def CachedPage_init_def)
  have miss: "map_of (page_cache h1) (page_key \<lparr>timeline_id = 0, page_number = 1024\<rparr>) = None"
    by (simp add: m1 k1024 C1024)
  define h2 where "h2 = read_pages no_log_client [read_of 1024 2001] h1"
  have step2: "map_of (page_cache h2) =
      ((map_of (page_cache h1))(0 := None))
        (1024 \<mapsto> (CachedPage_init \<lparr>timeline_id = 0, page_number = 1024\<rparr>)
                      \<lparr>page_data := zero_page, last_access := 2001\<rparr>)"
    using miss_full_step [OF miss _ victim clean, of 2001 no_log_client] len1
    by (simp add: h2_def read_of_def k1024 AList.update_conv' AList.delete_conv' victim_key)
  show ?thesis
    unfolding Let_def step1 h2_def [symmetric]
    by (simp add: len1 step2 m1 C1 g_def)
qed

section \<open>The page cache: the dirty flag\<close>

text \<open>
  No function of the handler sets \<^verbatim>\<open>dirty\<close>: the constructor of \<^verbatim>\<open>CachedPage\<close> clears it, a
  hit changes \<^verbatim>\<open>last_access\<close> only, and \<^verbatim>\<open>close\<close> and \<^verbatim>\<open>evict_page_from_cache\<close> only read it.
  So every page of a cache that reads have built from a new handler is clean, no read
  calls the write-back, and \<^verbatim>\<open>close\<close> has nothing to flush.
\<close>

lemma clean_update:
  assumes "list_all (\<lambda>e. \<not> dirty (snd e)) al" and "\<not> dirty page"
  shows "list_all (\<lambda>e. \<not> dirty (snd e)) (AList.update key page al)"
  using assms by (induction al) auto

lemma clean_delete:
  assumes "list_all (\<lambda>e. \<not> dirty (snd e)) al"
  shows "list_all (\<lambda>e. \<not> dirty (snd e)) (AList.delete key al)"
  using assms by (induction al) auto

lemma clean_lookup:
  assumes "list_all (\<lambda>e. \<not> dirty (snd e)) al" and "map_of al key = Some page"
  shows "\<not> dirty page"
  using assms by (induction al) (auto split: if_splits)

lemma evict_clean_cache:
  assumes "list_all (\<lambda>e. \<not> dirty (snd e)) (page_cache h)"
  shows "list_all (\<lambda>e. \<not> dirty (snd e)) (page_cache (evict_page_from_cache sk key h))
       \<and> writebacks (evict_page_from_cache sk key h) = writebacks h"
proof (cases "map_of (page_cache h) key")
  case None
  then show ?thesis
    using assms by (simp add: evict_page_from_cache_def)
next
  case (Some page)
  then have "\<not> dirty page"
    using assms by (rule clean_lookup [rotated])
  then show ?thesis
    using assms Some by (simp add: evict_clean [OF Some] clean_delete)
qed

lemma read_step_clean:
  assumes "list_all (\<lambda>e. \<not> dirty (snd e)) (page_cache h)"
  shows "list_all (\<lambda>e. \<not> dirty (snd e))
           (page_cache (snd (snd (read_page_from_cache_or_pageserver now ps sk pid buffer h))))
       \<and> writebacks (snd (snd (read_page_from_cache_or_pageserver now ps sk pid buffer h))) =
           writebacks h"
proof (cases "map_of (page_cache h) (page_key pid)")
  case (Some page)
  then have "\<not> dirty page"
    using assms by (rule clean_lookup [rotated])
  then show ?thesis
    using assms Some by (simp add: read_step_cases clean_update)
next
  case None
  let ?h1 = "h\<lparr>network_calls := network_calls h + 1\<rparr>"
  have h1: "list_all (\<lambda>e. \<not> dirty (snd e)) (page_cache ?h1)"
    using assms by simp
  have ev: "list_all (\<lambda>e. \<not> dirty (snd e))
              (page_cache (evict_page_from_cache sk (last (lru_list h)) ?h1))
          \<and> writebacks (evict_page_from_cache sk (last (lru_list h)) ?h1) = writebacks h"
    using evict_clean_cache [OF h1, of sk "last (lru_list h)"] by simp
  show ?thesis
    using assms None ev
    by (simp add: read_step_cases Let_def clean_update CachedPage_init_def
        split: option.splits)
qed

lemma read_pages_clean:
  assumes "list_all (\<lambda>e. \<not> dirty (snd e)) (page_cache h)"
  shows "list_all (\<lambda>e. \<not> dirty (snd e)) (page_cache (read_pages sk reads h))
       \<and> writebacks (read_pages sk reads h) = writebacks h"
  using assms
proof (induction reads arbitrary: h)
  case Nil
  then show ?case
    by simp
next
  case (Cons r reads)
  obtain now ps pid buffer where r: "r = (now, ps, pid, buffer)"
    by (cases r) auto
  show ?case
    using Cons.IH [of "snd (snd (read_page_from_cache_or_pageserver now ps sk pid buffer h))"]
      read_step_clean [OF Cons.prems, of now ps sk pid buffer]
    by (simp add: r)
qed

lemma reachable_cache_clean:
  "list_all (\<lambda>e. \<not> dirty (snd e)) (page_cache (read_pages sk reads ha_serverless_init))"
  "writebacks (read_pages sk reads ha_serverless_init) = []"
  "writebacks (snd (close sk (read_pages sk reads ha_serverless_init))) = []"
proof -
  let ?h = "read_pages sk reads ha_serverless_init"
  have init: "list_all (\<lambda>e. \<not> dirty (snd e)) (page_cache ha_serverless_init)"
    by (simp add: ha_serverless_init_def)
  show clean: "list_all (\<lambda>e. \<not> dirty (snd e)) (page_cache ?h)"
    using read_pages_clean [OF init] by simp
  show none: "writebacks ?h = []"
    using read_pages_clean [OF init, of sk reads] by (simp add: ha_serverless_init_def)
  have "filter (\<lambda>e. dirty (snd e)) (page_cache ?h) = []"
    using clean by (simp add: list_all_iff filter_empty_conv)
  then show "writebacks (snd (close sk ?h)) = []"
    using close_pass [of sk "page_cache ?h" ?h] none by (simp add: close_def)
qed

end
